theory Spec2Isabelle
  imports Complex_Main "HOL-Library.Word"
begin

unbundle bit_operations_syntax

section \<open>Tuneminal: the audio player (package player)\<close>

text \<open>
  The playback controller of Tuneminal is the Go struct \<open>AudioPlayer\<close>. Every exported
  method takes the struct's mutex for its whole body, so each method is one atomic step on
  the struct; the model passes the struct in and returns it updated. The background
  goroutine \<open>trackPosition\<close> and the channel \<open>playbackDone\<close> are not part of the model.

  Conventions of the model:
  \<^item> \<open>time.Duration\<close> is a count of nanoseconds. The player only compares and copies
    durations, so they are integers here.
  \<^item> a method that returns \<open>error\<close> returns the pair of the error (\<open>None\<close> is Go's
    \<open>nil\<close>) and the struct as the method left it;
  \<^item> a run-time panic (index out of range, division by zero, nil dereference) is the
    left injection of a sum.
\<close>

subsection \<open>Data\<close>

type_synonym byte = "8 word"

type_synonym Duration = int

definition Second :: Duration where
  "Second = 1000000000"

definition Millisecond :: Duration where
  "Millisecond = 1000000"

definition Minute :: Duration where
  "Minute = 60 * Second"

text \<open>The errors the player and the lyric functions build with \<open>fmt.Errorf\<close>.\<close>

datatype error =
    AudioFileNotFound string
  | FailedToOpenFile
  | FailedToDecodeMP3
  | FailedToDecodeWAV
  | UnsupportedFileFormat string
  | FailedToInitializeAudio
  | FailedToConvertAudioData
  | NoAudioFileLoaded
  | AudioContextNotInitialized
  | NoAudioFileLoadedOrPlayerNotAvailable
  | NoLyricsFound
  | NotInChronologicalOrder nat

datatype panic =
    IndexOutOfRange
  | IntegerDivideByZero
  | NilPointerDereference
  | MakeSliceLenOutOfRange

text \<open>
  An \<open>oto.Player\<close> as far as the player uses it: the offset of its reader into the PCM
  buffer when it was created, and whether it has been told to play.
\<close>

record otoPlayer =
  readerOffset :: int
  started :: bool

text \<open>The \<open>oto.Context\<close> remembers the format it was opened with.\<close>

record otoContext =
  ctxSampleRate :: int
  ctxChannelCount :: int

record AudioPlayer =
  otoContext :: "otoContext option"
  player :: "otoPlayer option"
  isLoaded :: bool
  isPlaying :: bool
  isPaused :: bool
  currentFile :: string
  audioData :: "byte list"
  sampleRate :: int
  channels :: int
  duration :: Duration
  position :: Duration
  volume :: rat

definition NewAudioPlayer :: AudioPlayer where
  "NewAudioPlayer =
     \<lparr> otoContext = None, player = None, isLoaded = False, isPlaying = False,
       isPaused = False, currentFile = [], audioData = [], sampleRate = 44100,
       channels = 2, duration = 0, position = 0, volume = 1 \<rparr>"

subsection \<open>The collaborators: file system, decoders, audio device\<close>

text \<open>
  What a decoder of the beep library yields: the stereo frames of the stream (beep
  streams \<open>[2]float64\<close> frames whatever the channel count of the file) and the format.
  Samples are exact rationals in the model; the floating-point rounding of the
  products is not modelled, so a quantized sample can differ by one where the float
  product rounds across an integer.
\<close>

record decoded =
  frames :: "(rat \<times> rat) list"
  fmtSampleRate :: int
  fmtNumChannels :: int

text \<open>
  A path of the file system as \<open>LoadFile\<close> observes it: \<open>os.Stat\<close> reports that it does
  not exist, or \<open>os.Open\<close> fails, or the file opens and each decoder either fails or
  yields a stream.
\<close>

datatype audioFile =
    Missing
  | Unreadable
  | Readable (mp3Decode: "decoded option") (wavDecode: "decoded option")

record world =
  audioFiles :: "string \<Rightarrow> audioFile"
  otoAvailable :: bool

subsection \<open>Helpers of the Go library\<close>

text \<open>Go's integer division truncates towards zero.\<close>

definition quo :: "int \<Rightarrow> int \<Rightarrow> int" where
  "quo a b = (if (a < 0) = (b < 0) then \<bar>a\<bar> div \<bar>b\<bar> else - (\<bar>a\<bar> div \<bar>b\<bar>))"

text \<open>
  \<open>filepath.Ext\<close>: the suffix beginning at the final dot in the final element of the
  path, empty if there is no dot. The scan runs from the end of the path.
\<close>

fun extScan :: "string \<Rightarrow> string \<Rightarrow> string" where
  "extScan acc [] = []"
| "extScan acc (c # cs) =
     (if c = CHR ''/'' then []
      else if c = CHR ''.'' then c # acc
      else extScan (c # acc) cs)"

definition Ext :: "string \<Rightarrow> string" where
  "Ext path = extScan [] (rev path)"

text \<open>\<open>strings.ToLower\<close> on the ASCII letters.\<close>

definition lowerChar :: "char \<Rightarrow> char" where
  "lowerChar c =
     (if 65 \<le> (of_char c :: nat) \<and> (of_char c :: nat) \<le> 90
      then char_of ((of_char c :: nat) + 32) else c)"

definition ToLower :: "string \<Rightarrow> string" where
  "ToLower s = map lowerChar s"

text \<open>A bounds-checked store into a slice: Go panics outside \<open>0 \<le> i < len\<close>.\<close>

definition store :: "byte list \<Rightarrow> int \<Rightarrow> byte \<Rightarrow> panic + byte list" where
  "store xs i v =
     (if 0 \<le> i \<and> i < int (length xs) then Inr (xs[nat i := v]) else Inl IndexOutOfRange)"

text \<open>\<open>make([]byte, n)\<close>: a zeroed slice, a panic for a negative length.\<close>

definition makeBytes :: "int \<Rightarrow> panic + byte list" where
  "makeBytes n = (if n < 0 then Inl MakeSliceLenOutOfRange else Inr (replicate (nat n) 0))"

text \<open>The conversion \<open>int16(x)\<close> of a float discards the fraction (towards zero).\<close>

definition floatToInt :: "rat \<Rightarrow> int" where
  "floatToInt x = (if 0 \<le> x then \<lfloor>x\<rfloor> else \<lceil>x\<rceil>)"

definition toInt16 :: "rat \<Rightarrow> 16 word" where
  "toInt16 x = word_of_int (floatToInt x)"

text \<open>\<open>byte(v)\<close> and \<open>byte(v >> 8)\<close> of an \<open>int16\<close>; the shift is arithmetic.\<close>

definition lowByte :: "16 word \<Rightarrow> byte" where
  "lowByte v = ucast v"

definition highByte :: "16 word \<Rightarrow> byte" where
  "highByte v = ucast (signed_drop_bit 8 v)"

subsection \<open>convertToRawPCM\<close>

text \<open>Volume scaling and the clamp of one channel of one frame.\<close>

definition clampSample :: "rat \<Rightarrow> rat" where
  "clampSample x = (if x > 1 then 1 else if x < -1 then -1 else x)"

text \<open>
  The body of the loop \<open>for i, sample := range samples\<close> for one frame: both channels are
  scaled and clamped, the left channel is stored at \<open>i*4\<close> and \<open>i*4+1\<close>, the right one at
  \<open>i*4+2\<close> and \<open>i*4+3\<close> when the player has more than one channel.
\<close>

definition convertFrame ::
  "rat \<Rightarrow> int \<Rightarrow> int \<Rightarrow> rat \<times> rat \<Rightarrow> byte list \<Rightarrow> panic + byte list" where
  "convertFrame vol ch i sample pcmData =
     (let left = clampSample (fst sample * vol);
          right = clampSample (snd sample * vol);
          leftInt = toInt16 (left * 32767)
      in case store pcmData (i * 4) (lowByte leftInt) of
           Inl e \<Rightarrow> Inl e
         | Inr d1 \<Rightarrow>
            (case store d1 (i * 4 + 1) (highByte leftInt) of
               Inl e \<Rightarrow> Inl e
             | Inr d2 \<Rightarrow>
                (let rightInt = toInt16 (right * 32767)
                 in if ch > 1 then
                      (case store d2 (i * 4 + 2) (lowByte rightInt) of
                         Inl e \<Rightarrow> Inl e
                       | Inr d3 \<Rightarrow> store d3 (i * 4 + 3) (highByte rightInt))
                    else Inr d2)))"

fun convertLoop ::
  "rat \<Rightarrow> int \<Rightarrow> int \<Rightarrow> (rat \<times> rat) list \<Rightarrow> byte list \<Rightarrow> panic + byte list" where
  "convertLoop vol ch i [] pcmData = Inr pcmData"
| "convertLoop vol ch i (sample # rest) pcmData =
     (case convertFrame vol ch i sample pcmData of
        Inl e \<Rightarrow> Inl e
      | Inr d \<Rightarrow> convertLoop vol ch (i + 1) rest d)"

text \<open>
  \<open>convertToRawPCM\<close> first drains the streamer into \<open>samples\<close> (the list \<open>samples\<close> of the
  model), allocates \<open>len(samples)*2*p.channels\<close> bytes and runs the loop. Its \<open>error\<close>
  result is always \<open>nil\<close>.
\<close>

definition convertToRawPCM :: "AudioPlayer \<Rightarrow> (rat \<times> rat) list \<Rightarrow> panic + byte list" where
  "convertToRawPCM p samples =
     (case makeBytes (int (length samples) * 2 * channels p) of
        Inl e \<Rightarrow> Inl e
      | Inr pcmData \<Rightarrow> convertLoop (volume p) (channels p) 0 samples pcmData)"

subsection \<open>The methods of the player\<close>

definition stopInternal :: "AudioPlayer \<Rightarrow> AudioPlayer" where
  "stopInternal p = p\<lparr> player := None, isPlaying := False, isPaused := False, position := 0 \<rparr>"

definition Stop :: "AudioPlayer \<Rightarrow> AudioPlayer" where
  "Stop p = stopInternal p"

definition initializeOto :: "world \<Rightarrow> AudioPlayer \<Rightarrow> error option \<times> AudioPlayer" where
  "initializeOto w p =
     (if otoContext p \<noteq> None then (None, p)
      else if \<not> otoAvailable w then (Some FailedToInitializeAudio, p)
      else (None, p\<lparr> otoContext :=
              Some \<lparr> ctxSampleRate = sampleRate p, ctxChannelCount = channels p \<rparr> \<rparr>))"

text \<open>
  The part of \<open>LoadFile\<close> after a successful decode: the format is stored in the player,
  the audio context is opened if there is none yet, the samples are converted, the
  duration is computed in whole seconds and the track is stored.
\<close>

definition loadDecoded ::
  "world \<Rightarrow> string \<Rightarrow> decoded \<Rightarrow> AudioPlayer \<Rightarrow> panic + (error option \<times> AudioPlayer)" where
  "loadDecoded w filename d p0 =
     (let p1 = p0\<lparr> sampleRate := fmtSampleRate d, channels := fmtNumChannels d \<rparr>
      in case initializeOto w p1 of
           (Some e, p2) \<Rightarrow> Inr (Some FailedToInitializeAudio, p2)
         | (None, p2) \<Rightarrow>
             (case convertToRawPCM p2 (frames d) of
                Inl e \<Rightarrow> Inl e
              | Inr data \<Rightarrow>
                 (let samplesPerSecond = sampleRate p2 * channels p2;
                      totalSamples = quo (int (length data)) 2
                  in if samplesPerSecond = 0 then Inl IntegerDivideByZero
                     else Inr (None,
                            p2\<lparr> duration := quo totalSamples samplesPerSecond * Second,
                                audioData := data, isLoaded := True,
                                currentFile := filename, position := 0 \<rparr>))))"

definition LoadFile ::
  "world \<Rightarrow> string \<Rightarrow> AudioPlayer \<Rightarrow> panic + (error option \<times> AudioPlayer)" where
  "LoadFile w filename p =
     (let p0 = stopInternal p
      in case audioFiles w filename of
           Missing \<Rightarrow> Inr (Some (AudioFileNotFound filename), p0)
         | Unreadable \<Rightarrow> Inr (Some FailedToOpenFile, p0)
         | Readable mp3 wav \<Rightarrow>
             (let ext = ToLower (Ext filename)
              in if ext = ''.mp3'' then
                   (case mp3 of
                      None \<Rightarrow> Inr (Some FailedToDecodeMP3, p0)
                    | Some d \<Rightarrow> loadDecoded w filename d p0)
                 else if ext = ''.wav'' then
                   (case wav of
                      None \<Rightarrow> Inr (Some FailedToDecodeWAV, p0)
                    | Some d \<Rightarrow> loadDecoded w filename d p0)
                 else Inr (Some (UnsupportedFileFormat ext), p0)))"

definition Play :: "AudioPlayer \<Rightarrow> error option \<times> AudioPlayer" where
  "Play p =
     (if \<not> isLoaded p \<or> length (audioData p) = 0 then (Some NoAudioFileLoaded, p)
      else if otoContext p = None then (Some AudioContextNotInitialized, p)
      else (None, (stopInternal p)\<lparr> player := Some \<lparr> readerOffset = 0, started = True \<rparr>,
                                    isPlaying := True, isPaused := False, position := 0 \<rparr>))"

definition Pause :: "AudioPlayer \<Rightarrow> AudioPlayer" where
  "Pause p =
     (case player p of
        Some pl \<Rightarrow>
          (if isPlaying p
           then p\<lparr> player := Some (pl\<lparr> started := False \<rparr>), isPaused := True, isPlaying := False \<rparr>
           else p)
      | None \<Rightarrow> p)"

definition Resume :: "AudioPlayer \<Rightarrow> AudioPlayer" where
  "Resume p =
     (case player p of
        Some pl \<Rightarrow>
          (if isPaused p
           then p\<lparr> player := Some (pl\<lparr> started := True \<rparr>), isPaused := False, isPlaying := True \<rparr>
           else p)
      | None \<Rightarrow> p)"

definition IsPlaying :: "AudioPlayer \<Rightarrow> bool" where
  "IsPlaying p = (isPlaying p \<and> \<not> isPaused p)"

definition GetPosition :: "AudioPlayer \<Rightarrow> Duration" where
  "GetPosition p = position p"

definition GetDuration :: "AudioPlayer \<Rightarrow> Duration" where
  "GetDuration p = duration p"

definition SetVolume :: "rat \<Rightarrow> AudioPlayer \<Rightarrow> AudioPlayer" where
  "SetVolume v p = p\<lparr> volume := (if v < 0 then 0 else if v > 1 then 1 else v) \<rparr>"

text \<open>
  \<open>bytes.Reader.Seek(offset, io.SeekStart)\<close> on a fresh reader: a negative offset is an
  error (which \<open>SeekTo\<close> ignores) and leaves the reader at 0.
\<close>

definition readerSeek :: "int \<Rightarrow> int" where
  "readerSeek offset = (if offset < 0 then 0 else offset)"

text \<open>
  \<open>SeekTo\<close>. \<open>int(position.Seconds())\<close> is the number of whole seconds of the duration.
  \<open>p.otoContext.NewPlayer\<close> dereferences the context, so a missing context is a panic.
\<close>

definition SeekTo :: "Duration \<Rightarrow> AudioPlayer \<Rightarrow> panic + (error option \<times> AudioPlayer)" where
  "SeekTo t p =
     (if \<not> isLoaded p \<or> player p = None
      then Inr (Some NoAudioFileLoadedOrPlayerNotAvailable, p)
      else
        (let pos = (if t < 0 then 0 else if t > duration p then duration p else t);
             samplesPerSecond = sampleRate p * channels p;
             targetSamples = quo pos Second * samplesPerSecond;
             wasPlaying = isPlaying p;
             p1 = stopInternal p
         in if otoContext p1 = None then Inl NilPointerDereference
            else
              (let sampleSize = 2 * channels p1;
                   bytesToSkip = targetSamples * sampleSize;
                   p2 = p1\<lparr> player := Some \<lparr> readerOffset = readerSeek bytesToSkip,
                                               started = False \<rparr>,
                            position := pos \<rparr>
               in if wasPlaying
                  then Inr (None, p2\<lparr> isPlaying := True, isPaused := False,
                                      player := Some \<lparr> readerOffset = readerSeek bytesToSkip,
                                                      started = True \<rparr> \<rparr>)
                  else Inr (None, p2))))"

section \<open>Lyrics (package player, lyrics file)\<close>

record LyricEntry =
  Time :: Duration
  Text :: string

text \<open>
  \<open>ValidateLyrics\<close>: an empty slice is an error; otherwise the loop from index 1 reports
  the first entry that is earlier than its predecessor.
\<close>

fun validateLoop :: "nat \<Rightarrow> Duration \<Rightarrow> LyricEntry list \<Rightarrow> error option" where
  "validateLoop i prev [] = None"
| "validateLoop i prev (e # rest) =
     (if Time e < prev then Some (NotInChronologicalOrder i)
      else validateLoop (i + 1) (Time e) rest)"

definition ValidateLyrics :: "LyricEntry list \<Rightarrow> error option" where
  "ValidateLyrics lyrics =
     (case lyrics of
        [] \<Rightarrow> Some NoLyricsFound
      | e # rest \<Rightarrow> validateLoop 1 (Time e) rest)"

text \<open>
  \<open>FindLyricAtTime\<close> returns a pointer into the slice, or \<open>nil\<close>; the model returns the
  entry, or \<open>None\<close>.
\<close>

fun findLyricLoop :: "Duration \<Rightarrow> LyricEntry list \<Rightarrow> LyricEntry option \<Rightarrow> LyricEntry option" where
  "findLyricLoop targetTime [] current = current"
| "findLyricLoop targetTime (e # rest) current =
     (if Time e \<le> targetTime then findLyricLoop targetTime rest (Some e) else current)"

definition FindLyricAtTime :: "LyricEntry list \<Rightarrow> Duration \<Rightarrow> LyricEntry option" where
  "FindLyricAtTime lyrics targetTime = findLyricLoop targetTime lyrics None"

section \<open>The application (package main)\<close>

text \<open>
  A \<open>LyricLine\<close> of the application has the two fields of a \<open>LyricEntry\<close> followed by its
  index and its two flags, so the record extends the one above and shares \<open>Time\<close> and
  \<open>Text\<close> with it.
\<close>

record LyricLine = LyricEntry +
  Index :: int
  IsActive :: bool
  IsHit :: bool

record Song =
  Title :: string
  Artist :: string
  Path :: string
  LyricsPath :: string
  Duration :: Duration

text \<open>
  The state of \<open>App\<close> that playback and scoring read and write. The widgets of the user
  interface and the bars of the visualizer are left out; the fields that share a name with
  a field of \<open>AudioPlayer\<close> carry the prefix \<open>app\<close>.
\<close>

record App =
  appPlayer :: "AudioPlayer option"
  songs :: "Song list"
  currentSong :: int
  appIsPlaying :: bool
  appIsPaused :: bool
  appPosition :: Duration
  appDuration :: Duration
  isLoading :: bool
  lyricLines :: "LyricLine list"
  karaokeScore :: int
  streak :: int
  accuracy :: rat
  totalLyrics :: int
  hitLyrics :: int
  beatPhase :: int
  appVolume :: rat

definition mkLine :: "Duration \<Rightarrow> string \<Rightarrow> int \<Rightarrow> LyricLine" where
  "mkLine t txt i = \<lparr> Time = t, Text = txt, Index = i, IsActive = False, IsHit = False \<rparr>"

definition demoLyrics :: "LyricLine list" where
  "demoLyrics =
     [ mkLine (0 * Second) ''Welcome to Tuneminal Karaoke!'' 0,
       mkLine (2 * Second) [] 1,
       mkLine (3 * Second) ''This is a demo song'' 2,
       mkLine (5 * Second) ''For the Tuneminal app'' 3,
       mkLine (7 * Second) ''Karaoke in your terminal'' 4,
       mkLine (9 * Second) ''It's really quite a snap'' 5,
       mkLine (11 * Second) [] 6,
       mkLine (12 * Second) ''Chorus'' 7,
       mkLine (14 * Second) ''Sing along with me'' 8,
       mkLine (16 * Second) ''In your terminal today'' 9,
       mkLine (18 * Second) ''Tuneminal makes it easy'' 10,
       mkLine (20 * Second) ''To karaoke the Go way'' 11,
       mkLine (22 * Second) [] 12,
       mkLine (23 * Second) ''Verse 2'' 13,
       mkLine (25 * Second) ''No need for fancy GUIs'' 14,
       mkLine (27 * Second) ''Just terminal and text'' 15,
       mkLine (29 * Second) ''Tuneminal brings the music'' 16,
       mkLine (31 * Second) ''To your command line next'' 17,
       mkLine (33 * Second) [] 18,
       mkLine (34 * Second) ''Thank you for using Tuneminal!'' 19 ]"

definition loadDemoLyrics :: "App \<Rightarrow> App" where
  "loadDemoLyrics a = a\<lparr> lyricLines := demoLyrics \<rparr>"

text \<open>
  \<open>loadLyricsFromFile\<close> scans an LRC file and appends one line per time tag it matches,
  numbering the lines from 0 with both flags false. The scanner and the regular
  expression are collaborators here: a lyric file is given by the (time, text) pairs of
  its tagged lines in file order, or \<open>None\<close> when the file cannot be opened.
\<close>

type_synonym lyricFiles = "string \<Rightarrow> (Duration \<times> string) list option"

fun appendLines :: "int \<Rightarrow> (Duration \<times> string) list \<Rightarrow> LyricLine list" where
  "appendLines index [] = []"
| "appendLines index ((t, txt) # rest) = mkLine t txt index # appendLines (index + 1) rest"

definition loadLyricsFromFile :: "lyricFiles \<Rightarrow> string \<Rightarrow> App \<Rightarrow> App" where
  "loadLyricsFromFile lf filename a =
     (case lf filename of
        None \<Rightarrow> loadDemoLyrics a
      | Some tagged \<Rightarrow>
          (let a1 = a\<lparr> lyricLines := appendLines 0 tagged \<rparr>
           in if length (lyricLines a1) = 0 then loadDemoLyrics a1 else a1))"

subsection \<open>The active lyric line\<close>

fun findLoop :: "Duration \<Rightarrow> LyricLine list \<Rightarrow> int \<Rightarrow> int \<Rightarrow> int" where
  "findLoop currentTime [] i activeIndex = activeIndex"
| "findLoop currentTime (lyric # rest) i activeIndex =
     (if currentTime \<ge> Time lyric then findLoop currentTime rest (i + 1) i else activeIndex)"

definition findCurrentLyricIndex :: "Duration \<Rightarrow> App \<Rightarrow> int" where
  "findCurrentLyricIndex currentTime a = findLoop currentTime (lyricLines a) 0 (-1)"

subsection \<open>Scoring\<close>

text \<open>Go's remainder has the sign of the dividend.\<close>

definition rem :: "int \<Rightarrow> int \<Rightarrow> int" where
  "rem a b = a - b * quo a b"

text \<open>
  The scoring arithmetic of the application is in \<open>float64\<close>; the model computes it in
  exact rationals, so the points of a hit can differ by one from the truncated float
  product of the code (the streak, the hit count and the flags do not depend on it).
  \<open>rand.Float64()\<close> is the parameter \<open>draw\<close> of \<open>updateKaraokeScoring\<close>.
\<close>

definition calculateHitChance :: "int \<Rightarrow> App \<Rightarrow> rat" where
  "calculateHitChance lyricIndex a =
     (let baseChance = 7 / 10;
          streakBonus0 = of_int (streak a) * (5 / 100);
          streakBonus = (if streakBonus0 > 2 / 10 then 2 / 10 else streakBonus0);
          progressBonus = (of_int lyricIndex / of_int (int (length (lyricLines a)))) * (1 / 10);
          beatBonus = (if beatPhase a = 0 then 1 / 10 else 0);
          totalChance = baseChance + streakBonus + progressBonus + beatBonus
      in if totalChance > 95 / 100 then 95 / 100 else totalChance)"

definition hitLyric :: "int \<Rightarrow> App \<Rightarrow> App" where
  "hitLyric lyricIndex a =
     (if lyricIndex < 0 \<or> lyricIndex \<ge> int (length (lyricLines a)) then a
      else if IsHit (lyricLines a ! nat lyricIndex) then a
      else
        (let a1 = a\<lparr> lyricLines := (lyricLines a)[nat lyricIndex :=
                        (lyricLines a ! nat lyricIndex)\<lparr> IsHit := True \<rparr>],
                     hitLyrics := hitLyrics a + 1 \<rparr>;
             basePoints = 100;
             streakMultiplier = 1 + of_int (streak a1) / 10;
             beatBonus = (if beatPhase a1 = 0 then 50 else 0);
             points = floatToInt (of_int basePoints * streakMultiplier) + beatBonus;
             a2 = a1\<lparr> karaokeScore := karaokeScore a1 + points \<rparr>;
             a3 = a2\<lparr> streak := streak a2 + 1 \<rparr>
         in if streak a3 = 5 then a3\<lparr> karaokeScore := karaokeScore a3 + 500 \<rparr>
            else if streak a3 = 10 then a3\<lparr> karaokeScore := karaokeScore a3 + 1000 \<rparr>
            else if rem (streak a3) 15 = 0 then a3\<lparr> karaokeScore := karaokeScore a3 + 2000 \<rparr>
            else a3))"

text \<open>\<open>calculateAccuracy\<close> also fills in \<open>totalLyrics\<close> when it is still 0.\<close>

definition calculateAccuracy :: "App \<Rightarrow> rat \<times> App" where
  "calculateAccuracy a =
     (let a1 = (if totalLyrics a = 0 then a\<lparr> totalLyrics := int (length (lyricLines a)) \<rparr> else a)
      in if totalLyrics a1 = 0 then (0, a1)
         else (of_int (hitLyrics a1) / of_int (totalLyrics a1) * 100, a1))"

definition updateKaraokeScoring :: "rat \<Rightarrow> App \<Rightarrow> App" where
  "updateKaraokeScoring draw a =
     (if length (lyricLines a) = 0 then a
      else
        (let currentTime = appPosition a;
             activeIndex = findCurrentLyricIndex currentTime a;
             a1 = (if activeIndex \<ge> 0 \<and> activeIndex < int (length (lyricLines a)) then
                     (let lyric = lyricLines a ! nat activeIndex
                      in if \<not> IsHit lyric \<and> \<not> IsActive lyric then
                           (let a0 = a\<lparr> lyricLines := (lyricLines a)[nat activeIndex :=
                                           lyric\<lparr> IsActive := True \<rparr>] \<rparr>;
                                hitChance = calculateHitChance activeIndex a0
                            in if draw < hitChance then hitLyric activeIndex a0 else a0)
                         else a)
                   else a);
             (acc, a2) = calculateAccuracy a1
         in a2\<lparr> accuracy := acc \<rparr>))"

text \<open>
  One round of the tracker \<open>trackRealPlayback\<close> as far as it touches the scoring state:
  the position read from the player (the first component of the tick) is stored,
  \<open>generateVisualizerData\<close> derives the beat phase from it and \<open>updateScore\<close> runs the
  scoring while the application is playing, with the second component as its draw.
\<close>

definition generateVisualizerData :: "App \<Rightarrow> App" where
  "generateVisualizerData a =
     (let timeMs = quo (appPosition a) Millisecond
      in a\<lparr> beatPhase := rem (quo timeMs 250) 4 \<rparr>)"

definition updateVisualizer :: "App \<Rightarrow> App" where
  "updateVisualizer a = (if \<not> appIsPlaying a then a else generateVisualizerData a)"

definition updateScore :: "rat \<Rightarrow> App \<Rightarrow> App" where
  "updateScore draw a = (if appIsPlaying a then updateKaraokeScoring draw a else a)"

definition scoringTick :: "Duration \<times> rat \<Rightarrow> App \<Rightarrow> App" where
  "scoringTick tk a = updateScore (snd tk) (updateVisualizer (a\<lparr> appPosition := fst tk \<rparr>))"

fun scoringTicks :: "(Duration \<times> rat) list \<Rightarrow> App \<Rightarrow> App" where
  "scoringTicks [] a = a"
| "scoringTicks (tk # rest) a = scoringTicks rest (scoringTick tk a)"

subsection \<open>Playback controls\<close>

definition resetKaraoke :: "App \<Rightarrow> App" where
  "resetKaraoke a =
     a\<lparr> karaokeScore := 0, streak := 0, accuracy := 0,
        totalLyrics := int (length (lyricLines a)), hitLyrics := 0,
        lyricLines := map (\<lambda>l. l\<lparr> IsHit := False, IsActive := False \<rparr>) (lyricLines a) \<rparr>"

text \<open>
  \<open>play\<close>. The flag \<open>isLoading\<close> is set on entry and cleared by the deferred function on
  every return. \<open>handleError\<close> only writes to the user interface. The two goroutines
  started at the end (the redraw and \<open>trackRealPlayback\<close>) run after \<open>play\<close> has returned
  its state and are not part of this function.
\<close>

definition play :: "world \<Rightarrow> lyricFiles \<Rightarrow> App \<Rightarrow> panic + App" where
  "play w lf a =
     (if currentSong a < 0 \<or> currentSong a \<ge> int (length (songs a)) then Inr a
      else
        (let song = songs a ! nat (currentSong a);
             a1 = (if LyricsPath song \<noteq> []
                   then loadLyricsFromFile lf (LyricsPath song) a
                   else a\<lparr> lyricLines := [mkLine (0 * Second) ''No lyrics available'' 0] \<rparr>);
             a2 = (if \<not> appIsPaused a1 then resetKaraoke a1 else a1)
         in case appPlayer a2 of
              None \<Rightarrow> Inr (a2\<lparr> isLoading := False \<rparr>)
            | Some p \<Rightarrow>
               (case LoadFile w (Path song) p of
                  Inl e \<Rightarrow> Inl e
                | Inr (Some err, p1) \<Rightarrow> Inr (a2\<lparr> appPlayer := Some p1, isLoading := False \<rparr>)
                | Inr (None, p1) \<Rightarrow>
                   (let p2 = SetVolume (appVolume a2) p1
                    in case (if appIsPaused a2 \<and> appPosition a2 > 0
                             then SeekTo (appPosition a2) p2 else Inr (None, p2)) of
                         Inl e \<Rightarrow> Inl e
                       | Inr (seekErr, p3) \<Rightarrow>
                          (case Play p3 of
                             (Some err, p4) \<Rightarrow>
                               Inr (a2\<lparr> appPlayer := Some p4, isLoading := False \<rparr>)
                           | (None, p4) \<Rightarrow>
                               Inr (a2\<lparr> appPlayer := Some p4, appIsPlaying := True,
                                        appIsPaused := False, appDuration := Duration song,
                                        isLoading := False \<rparr>))))))"

definition pause :: "App \<Rightarrow> App" where
  "pause a =
     (case appPlayer a of
        Some p \<Rightarrow> a\<lparr> appPlayer := Some (Pause p), appIsPaused := True, appIsPlaying := False \<rparr>
      | None \<Rightarrow> a\<lparr> appIsPaused := True, appIsPlaying := False \<rparr>)"

definition togglePlayPause :: "world \<Rightarrow> lyricFiles \<Rightarrow> App \<Rightarrow> panic + App" where
  "togglePlayPause w lf a =
     (if appIsPlaying a \<and> \<not> appIsPaused a then Inr (pause a)
      else if currentSong a \<ge> 0 then play w lf a
      else Inr a)"

text \<open>
  The key handler that closes the help page, installed by \<open>showHelp\<close>: the audio that
  \<open>showHelp\<close> paused is resumed with \<open>a.player.Resume()\<close>. \<open>wasPlaying\<close> is the value
  \<open>showHelp\<close> captured when the page was opened.
\<close>

definition closeHelp :: "bool \<Rightarrow> App \<Rightarrow> App" where
  "closeHelp wasPlaying a =
     (case appPlayer a of
        Some p \<Rightarrow> (if wasPlaying then a\<lparr> appPlayer := Some (Resume p) \<rparr> else a)
      | None \<Rightarrow> a)"

text \<open>
  \<open>showHelp\<close> up to the point where it builds the page: audio that is playing is paused
  on the player only (the flags of the application stay as they are), and the closure
  keeps \<open>wasPlaying\<close>.
\<close>

definition showHelp :: "App \<Rightarrow> bool \<times> App" where
  "showHelp a =
     (let wasPlaying = (appIsPlaying a \<and> \<not> appIsPaused a)
      in case appPlayer a of
           Some p \<Rightarrow> (wasPlaying, if wasPlaying then a\<lparr> appPlayer := Some (Pause p) \<rparr> else a)
         | None \<Rightarrow> (wasPlaying, a))"

section \<open>Notions used to state the properties\<close>

text \<open>
  The link between the fields that concern the device session: a session exists only
  with an audio context and a loaded track, and the duration is not negative.
\<close>

definition sessionInv :: "AudioPlayer \<Rightarrow> bool" where
  "sessionInv p =
     ((case player p of None \<Rightarrow> True | Some s \<Rightarrow> otoContext p \<noteq> None \<and> isLoaded p) \<and>
      0 \<le> duration p)"

text \<open>
  The errors of \<open>LoadFile\<close> for a file that is missing, cannot be opened, has an
  unsupported extension or does not decode.
\<close>

definition loadFailure :: "error \<Rightarrow> bool" where
  "loadFailure e =
     (case e of
        AudioFileNotFound f \<Rightarrow> True
      | FailedToOpenFile \<Rightarrow> True
      | FailedToDecodeMP3 \<Rightarrow> True
      | FailedToDecodeWAV \<Rightarrow> True
      | UnsupportedFileFormat x \<Rightarrow> True
      | _ \<Rightarrow> False)"

text \<open>
  The sample buffer as the specification words it, to be compared with
  \<open>convertToRawPCM\<close>: for every frame in order and every channel of the frame in order,
  the sample times the volume, clamped to the interval from -1 to 1, quantized to a signed
  16-bit integer and stored low byte first. Channel 0 of a frame is its left sample,
  channel 1 its right sample.
\<close>

definition specClamp :: "rat \<Rightarrow> rat" where
  "specClamp x = max (- 1) (min 1 x)"

definition littleEndian16 :: "16 word \<Rightarrow> byte list" where
  "littleEndian16 v = [ucast v, ucast (drop_bit 8 v)]"

definition channelSample :: "nat \<Rightarrow> rat \<times> rat \<Rightarrow> rat" where
  "channelSample c s = (if c = 0 then fst s else snd s)"

definition specBuild :: "rat \<Rightarrow> nat \<Rightarrow> (rat \<times> rat) list \<Rightarrow> byte list" where
  "specBuild vol ch samples =
     concat (map (\<lambda>s. concat (map (\<lambda>c. littleEndian16
                                         (toInt16 (specClamp (channelSample c s * vol) * 32767)))
                                  [0..<ch])) samples)"

text \<open>
  The condition under which \<open>updateKaraokeScoring\<close> credits the active line: there are
  lines, the active index is in range, the line is neither hit nor active yet, and the
  draw is below the hit chance computed after the line was marked active.
\<close>

definition creditsLine :: "rat \<Rightarrow> App \<Rightarrow> bool" where
  "creditsLine draw a =
     (let i = findCurrentLyricIndex (appPosition a) a;
          lyric = lyricLines a ! nat i
      in length (lyricLines a) \<noteq> 0 \<and> 0 \<le> i \<and> i < int (length (lyricLines a)) \<and>
         \<not> IsHit lyric \<and> \<not> IsActive lyric \<and>
         draw < calculateHitChance i
                  (a\<lparr> lyricLines := (lyricLines a)[nat i := lyric\<lparr> IsActive := True \<rparr>] \<rparr>))"

section \<open>Example data\<close>

text \<open>
  A world with a three-frame stereo file at 1 Hz (so that the track lasts three seconds),
  a two-frame mono file and a file that no decoder accepts, and the player states reached
  from it.
\<close>

definition demoTrack :: decoded where
  "demoTrack = \<lparr> frames = [(1/2, -1/2), (3/2, -3), (0, 1)], fmtSampleRate = 1, fmtNumChannels = 2 \<rparr>"

definition monoTrack :: decoded where
  "monoTrack = \<lparr> frames = [(1/2, 1/2), (1/4, 1/4)], fmtSampleRate = 1, fmtNumChannels = 1 \<rparr>"

definition demoWorld :: world where
  "demoWorld =
     \<lparr> audioFiles = (\<lambda>f. if f = ''song.wav'' then Readable None (Some demoTrack)
                           else if f = ''mono.wav'' then Readable None (Some monoTrack)
                           else if f = ''notes.txt'' then Readable None None
                           else if f = ''broken.mp3'' then Readable None None
                           else Missing),
       otoAvailable = True \<rparr>"

definition loadedPlayer :: AudioPlayer where
  "loadedPlayer =
     \<lparr> otoContext = Some \<lparr> ctxSampleRate = 1, ctxChannelCount = 2 \<rparr>,
       player = None, isLoaded = True, isPlaying = False, isPaused = False,
       currentFile = ''song.wav'',
       audioData = [255, 63, 1, 192, 255, 127, 1, 128, 0, 0, 255, 127],
       sampleRate = 1, channels = 2, duration = 3 * Second, position = 0, volume = 1 \<rparr>"

text \<open>Playing, two seconds into the track (the position is the tracker's last write).\<close>

definition playingPlayer :: AudioPlayer where
  "playingPlayer =
     loadedPlayer\<lparr> player := Some \<lparr> readerOffset = 0, started = True \<rparr>,
                   isPlaying := True, position := 2 * Second \<rparr>"

definition pausedPlayer :: AudioPlayer where
  "pausedPlayer =
     loadedPlayer\<lparr> player := Some \<lparr> readerOffset = 0, started = False \<rparr>,
                   isPaused := True, position := 2 * Second \<rparr>"

text \<open>
  A two-frame stereo file whose header carries the sample rate -2. \<open>LoadFile\<close> does
  not look at the sign of the rate, so the duration it computes is -1 s.
\<close>

definition negativeRateTrack :: decoded where
  "negativeRateTrack =
     \<lparr> frames = [(1/2, 1/2), (1/4, 1/4)], fmtSampleRate = - 2, fmtNumChannels = 2 \<rparr>"

definition negativeRateWorld :: world where
  "negativeRateWorld =
     \<lparr> audioFiles = (\<lambda>f. if f = ''negative.wav'' then Readable None (Some negativeRateTrack)
                           else Missing),
       otoAvailable = True \<rparr>"

text \<open>A mono player at half volume, before any track is converted.\<close>

definition monoPlayer :: AudioPlayer where
  "monoPlayer = NewAudioPlayer\<lparr> channels := 1, volume := 1 / 2 \<rparr>"

text \<open>Lyric entries in and out of chronological order.\<close>

definition orderedEntries :: "LyricEntry list" where
  "orderedEntries = [\<lparr> Time = 0 * Second, Text = ''A'' \<rparr>, \<lparr> Time = 3 * Second, Text = ''B'' \<rparr>]"

definition unorderedEntries :: "LyricEntry list" where
  "unorderedEntries = [\<lparr> Time = 5 * Second, Text = ''B'' \<rparr>, \<lparr> Time = 2 * Second, Text = ''C'' \<rparr>]"

text \<open>Applications: idle, with the timeline of the scenario, with a timeline out of order.\<close>

definition idleApp :: App where
  "idleApp =
     \<lparr> appPlayer = Some NewAudioPlayer, songs = [], currentSong = -1, appIsPlaying = False,
       appIsPaused = False, appPosition = 0, appDuration = 0, isLoading = False,
       lyricLines = [], karaokeScore = 0, streak = 0, accuracy = 0, totalLyrics = 0,
       hitLyrics = 0, beatPhase = 0, appVolume = 1 \<rparr>"

definition scenarioLines :: "LyricLine list" where
  "scenarioLines =
     [mkLine (0 * Second) ''A'' 0, mkLine (3 * Second) ''B'' 1, mkLine (6 * Second) [] 2]"

definition scenarioApp :: App where
  "scenarioApp = idleApp\<lparr> lyricLines := scenarioLines \<rparr>"

definition unorderedApp :: App where
  "unorderedApp =
     idleApp\<lparr> lyricLines := [mkLine (1 * Second) ''A'' 0, mkLine (5 * Second) ''B'' 1,
                              mkLine (2 * Second) ''C'' 2] \<rparr>"

text \<open>
  A song with a lyric file, and an application whose previous playback of it has ended
  with a streak of 7; the same application while playing and while paused two seconds
  into the song; and the application right after a fresh \<open>play\<close>.
\<close>

definition demoSong :: Song where
  "demoSong = \<lparr> Title = ''Demo'', Artist = ''Tuneminal'', Path = ''song.wav'',
                LyricsPath = ''song.lrc'', Duration = 3 * Second \<rparr>"

definition demoLyricFiles :: lyricFiles where
  "demoLyricFiles =
     (\<lambda>f. if f = ''song.lrc''
          then Some [(0 * Second, ''A''), (3 * Second, ''B''), (6 * Second, [])]
          else None)"

definition priorLines :: "LyricLine list" where
  "priorLines =
     [ (mkLine (0 * Second) ''A'' 0)\<lparr> IsActive := True, IsHit := True \<rparr>,
       (mkLine (3 * Second) ''B'' 1)\<lparr> IsActive := True \<rparr>,
       mkLine (6 * Second) [] 2 ]"

definition finishedApp :: App where
  "finishedApp =
     idleApp\<lparr> appPlayer := Some loadedPlayer, songs := [demoSong], currentSong := 0,
              appPosition := 3 * Second, appDuration := 3 * Second, lyricLines := priorLines,
              karaokeScore := 1234, streak := 7, accuracy := 100 / 3, totalLyrics := 3,
              hitLyrics := 1 \<rparr>"

definition singingApp :: App where
  "singingApp =
     finishedApp\<lparr> appPlayer := Some playingPlayer, appIsPlaying := True,
                  appPosition := 2 * Second \<rparr>"

definition pausedApp :: App where
  "pausedApp =
     finishedApp\<lparr> appPlayer := Some pausedPlayer, appIsPaused := True,
                  appPosition := 2 * Second \<rparr>"

definition helpApp :: App where
  "helpApp = singingApp\<lparr> appPlayer := Some pausedPlayer \<rparr>"

definition freshApp :: App where
  "freshApp =
     finishedApp\<lparr> appPlayer := Some (playingPlayer\<lparr> position := 0 \<rparr>), appIsPlaying := True,
                  lyricLines := scenarioLines, karaokeScore := 0, streak := 0, accuracy := 0,
                  hitLyrics := 0 \<rparr>"

text \<open>
  Three rounds of the tracker: the first line is credited, the second is missed (the
  draw 0.99 is above every hit chance), the third is credited.
\<close>

definition demoTicks :: "(Duration \<times> rat) list" where
  "demoTicks =
     [(0, 1 / 2), (3 * Second + 100 * Millisecond, 99 / 100), (6 * Second, 0)]"

section \<open>Properties of the player\<close>

subsection \<open>The example states are reached by the methods\<close>

lemma loadedPlayer_reached:
  "LoadFile demoWorld ''song.wav'' NewAudioPlayer = Inr (None, loadedPlayer)"
  by code_simp

lemma playingPlayer_reached:
  "Play loadedPlayer = (None, playingPlayer\<lparr> position := 0 \<rparr>)"
  by code_simp

lemma pausedPlayer_reached: "Pause playingPlayer = pausedPlayer"
  by code_simp

lemma Stop_playing: "Stop playingPlayer = loadedPlayer"
  by code_simp

subsection \<open>Sessions, contexts and durations\<close>

text \<open>
  A fresh player satisfies \<open>sessionInv\<close>, and the methods keep it. For a load this needs
  a decoder that reports a positive sample rate and channel count.
\<close>

lemma sessionInv_New: "sessionInv NewAudioPlayer"
  by (simp add: sessionInv_def NewAudioPlayer_def)

lemma sessionInv_simple:
  assumes "sessionInv p"
  shows "sessionInv (Stop p)" and "sessionInv (Pause p)" and "sessionInv (Resume p)"
    and "sessionInv (SetVolume v p)" and "sessionInv (snd (Play p))"
  using assms
  by (auto simp: sessionInv_def Stop_def stopInternal_def Pause_def Resume_def SetVolume_def
      Play_def split: option.splits)

lemma sessionInv_SeekTo:
  assumes "sessionInv p" and "SeekTo t p = Inr (err, p')"
  shows "sessionInv p'"
  using assms
  by (auto simp: sessionInv_def SeekTo_def stopInternal_def Let_def split: option.splits if_splits)

lemma quo_nonneg: "0 \<le> a \<Longrightarrow> 0 < b \<Longrightarrow> 0 \<le> quo a b"
  by (simp add: quo_def pos_imp_zdiv_nonneg_iff)

lemma sessionInv_loadDecoded:
  assumes "player p = None" and "0 \<le> duration p"
    and "0 < fmtSampleRate d" and "0 < fmtNumChannels d"
    and "loadDecoded w f d p = Inr (err, p')"
  shows "sessionInv p'"
proof -
  have q: "0 \<le> quo (quo (int (length data)) 2) (fmtSampleRate d * fmtNumChannels d) * Second" for data :: "byte list"
    using assms(3,4) by (simp add: quo_nonneg Second_def)
  show ?thesis
    using assms q
    by (auto simp: loadDecoded_def initializeOto_def sessionInv_def Let_def
        split: if_splits sum.splits)
qed

subsection \<open>Seeking\<close>

text \<open>
  Claim C1 as stated does not hold: \<open>LoadFile\<close> computes the duration as
  \<open>totalSamples / (sampleRate * channels)\<close> seconds without looking at the sign of the
  sample rate, so a file whose header carries the rate -2 is loaded with a duration of
  -1 s. Once it plays, \<open>SeekTo 0\<close> takes the branch \<open>position > p.duration\<close> and leaves
  the position at -1 s, which is negative and so outside the interval from 0 to the
  duration. (The file is loaded into the player that already holds the example track, so
  the audio context exists.)
\<close>

theorem SeekTo_negative_duration_counterexample:
  "(case LoadFile negativeRateWorld ''negative.wav'' loadedPlayer of
      Inl crash \<Rightarrow> False
    | Inr (Some err, p1) \<Rightarrow> False
    | Inr (None, p1) \<Rightarrow>
        (case Play p1 of
           (Some err, p2) \<Rightarrow> False
         | (None, p2) \<Rightarrow>
             isLoaded p2 \<and> player p2 \<noteq> None \<and> duration p2 = - 1 * Second \<and>
             (case SeekTo 0 p2 of
                Inl crash \<Rightarrow> False
              | Inr (err, p3) \<Rightarrow>
                  err = None \<and> position p3 = - 1 * Second \<and> position p3 < 0)))"
  by code_simp

text \<open>
  Claim C1, amended. When a track is loaded and a player session exists (with the audio
  context every session comes from), \<open>SeekTo t\<close> returns without error for every \<open>t\<close>
  and leaves the position at 0 for a negative \<open>t\<close>, at the duration for a \<open>t\<close> beyond
  it, and at \<open>t\<close> otherwise; whenever the duration of the track is not negative, that
  position lies in the interval from 0 to the duration.
\<close>

theorem SeekTo_clamps_position:
  assumes "isLoaded p" and "player p \<noteq> None" and "otoContext p \<noteq> None"
  shows "case SeekTo t p of
           Inl crash \<Rightarrow> False
         | Inr (err, p') \<Rightarrow>
             err = None \<and> duration p' = duration p \<and>
             position p' = (if t < 0 then 0 else if t > duration p then duration p else t) \<and>
             (0 \<le> duration p \<longrightarrow> 0 \<le> position p' \<and> position p' \<le> duration p')"
  using assms by (simp add: SeekTo_def stopInternal_def Let_def)

text \<open>On the paused example player, whose track lasts three seconds.\<close>

theorem SeekTo_clamps_position_witness:
  "isLoaded pausedPlayer \<and> player pausedPlayer \<noteq> None \<and> otoContext pausedPlayer \<noteq> None \<and>
   0 \<le> duration pausedPlayer \<and>
   (case SeekTo (- 5 * Second) pausedPlayer of
      Inl crash \<Rightarrow> False
    | Inr (err, p') \<Rightarrow> err = None \<and> position p' = 0 \<and> position p' \<le> duration p') \<and>
   (case SeekTo (7 * Second) pausedPlayer of
      Inl crash \<Rightarrow> False
    | Inr (err, p') \<Rightarrow> err = None \<and> position p' = 3 * Second \<and> position p' \<le> duration p') \<and>
   (case SeekTo (1 * Second) pausedPlayer of
      Inl crash \<Rightarrow> False
    | Inr (err, p') \<Rightarrow> err = None \<and> position p' = 1 * Second \<and> position p' \<le> duration p')"
proof -
  have h: "isLoaded pausedPlayer" "player pausedPlayer \<noteq> None"
    "otoContext pausedPlayer \<noteq> None"
    by (simp_all add: pausedPlayer_def loadedPlayer_def)
  have d: "duration pausedPlayer = 3 * Second"
    by (simp add: pausedPlayer_def loadedPlayer_def)
  show ?thesis
    using h SeekTo_clamps_position [OF h, of "- 5 * Second"]
      SeekTo_clamps_position [OF h, of "7 * Second"]
      SeekTo_clamps_position [OF h, of "1 * Second"]
    by (auto simp: d Second_def split: sum.splits prod.splits)
qed

text \<open>
  Claim C7 as stated does not hold: \<open>SeekTo\<close> is refused in the state right after
  \<open>LoadFile\<close> and in the state after \<open>Stop\<close>, although a track is loaded in both,
  because \<open>stopInternal\<close> has discarded the session and \<open>SeekTo\<close> checks for one.
\<close>

theorem SeekTo_rejected_after_load_counterexample:
  "LoadFile demoWorld ''song.wav'' NewAudioPlayer = Inr (None, loadedPlayer) \<and>
   isLoaded loadedPlayer \<and>
   SeekTo Second loadedPlayer = Inr (Some NoAudioFileLoadedOrPlayerNotAvailable, loadedPlayer) \<and>
   isLoaded (Stop playingPlayer) \<and>
   SeekTo Second (Stop playingPlayer) =
     Inr (Some NoAudioFileLoadedOrPlayerNotAvailable, Stop playingPlayer)"
  by code_simp

text \<open>
  Claim C7, amended. \<open>SeekTo t\<close> returns its error, and leaves the player as it was,
  whenever no track is loaded or no player session exists; with a loaded track and a
  session (playing, paused, or played to the end) it is accepted and returns no error.
\<close>

theorem SeekTo_accepted_iff_session:
  "(\<not> isLoaded p \<or> player p = None \<longrightarrow>
      SeekTo t p = Inr (Some NoAudioFileLoadedOrPlayerNotAvailable, p)) \<and>
   (isLoaded p \<and> player p \<noteq> None \<and> otoContext p \<noteq> None \<longrightarrow>
      (case SeekTo t p of Inl crash \<Rightarrow> False | Inr (err, p') \<Rightarrow> err = None))"
  by (auto simp: SeekTo_def stopInternal_def Let_def)

text \<open>On a fresh player, on the playing and on the paused example player.\<close>

theorem SeekTo_accepted_iff_session_witness:
  "player NewAudioPlayer = None \<and>
   SeekTo Second NewAudioPlayer = Inr (Some NoAudioFileLoadedOrPlayerNotAvailable, NewAudioPlayer) \<and>
   isLoaded playingPlayer \<and> player playingPlayer \<noteq> None \<and> otoContext playingPlayer \<noteq> None \<and>
   (case SeekTo Second playingPlayer of Inl crash \<Rightarrow> False | Inr (err, p') \<Rightarrow> err = None) \<and>
   isLoaded pausedPlayer \<and> player pausedPlayer \<noteq> None \<and> otoContext pausedPlayer \<noteq> None \<and>
   (case SeekTo Second pausedPlayer of Inl crash \<Rightarrow> False | Inr (err, p') \<Rightarrow> err = None)"
proof -
  have a: "player NewAudioPlayer = None"
    by (simp add: NewAudioPlayer_def)
  have b: "isLoaded playingPlayer \<and> player playingPlayer \<noteq> None \<and> otoContext playingPlayer \<noteq> None"
    by (simp add: playingPlayer_def loadedPlayer_def)
  have c: "isLoaded pausedPlayer \<and> player pausedPlayer \<noteq> None \<and> otoContext pausedPlayer \<noteq> None"
    by (simp add: pausedPlayer_def loadedPlayer_def)
  show ?thesis
    using a b c SeekTo_accepted_iff_session [of NewAudioPlayer Second]
      SeekTo_accepted_iff_session [of playingPlayer Second]
      SeekTo_accepted_iff_session [of pausedPlayer Second]
    by blast
qed

subsection \<open>Loading\<close>

text \<open>
  Claim C2 as stated does not hold: \<open>LoadFile\<close> stops the current playback before it
  looks at the file, so a load that fails for a missing file still ends the session and
  resets the playback state and the position.
\<close>

theorem LoadFile_failure_stops_playback_counterexample:
  "LoadFile demoWorld ''nosuch.mp3'' playingPlayer =
     Inr (Some (AudioFileNotFound ''nosuch.mp3''), loadedPlayer) \<and>
   isPlaying playingPlayer \<and> \<not> isPlaying loadedPlayer \<and>
   position playingPlayer = 2 * Second \<and> position loadedPlayer = 0 \<and>
   player playingPlayer = Some \<lparr> readerOffset = 0, started = True \<rparr> \<and>
   player loadedPlayer = None"
  by code_simp

lemma loadDecoded_errors:
  "loadDecoded w f d p0 = Inr (Some e, p') \<Longrightarrow> e = FailedToInitializeAudio"
  by (auto simp: loadDecoded_def Let_def split: prod.splits option.splits sum.splits if_splits)

text \<open>
  Claim C2, amended. When \<open>LoadFile\<close> returns an error for a missing file, a file that
  cannot be opened, an unsupported extension or a decode failure, the player is exactly
  the player before the call after \<open>stopInternal\<close>: the loaded track, the audio buffer,
  the duration, the sample rate, the channel count, the file name, the audio context and
  the volume are as before, while the session is closed, the player is neither playing
  nor paused and the position is 0. \<open>Play\<close> gives the same verdict on it as before the
  call, so a track that was loaded can be played again, from the start.
\<close>

theorem LoadFile_failure_keeps_track:
  assumes "LoadFile w filename p = Inr (Some e, p')" and "loadFailure e"
  shows "p' = stopInternal p \<and>
         isLoaded p' = isLoaded p \<and> audioData p' = audioData p \<and>
         duration p' = duration p \<and> sampleRate p' = sampleRate p \<and>
         channels p' = channels p \<and> currentFile p' = currentFile p \<and>
         otoContext p' = otoContext p \<and> volume p' = volume p \<and>
         player p' = None \<and> \<not> isPlaying p' \<and> \<not> isPaused p' \<and> position p' = 0 \<and>
         fst (Play p') = fst (Play p)"
proof -
  have "p' = stopInternal p"
    using assms
    by (auto simp: LoadFile_def Let_def loadFailure_def
        split: audioFile.splits option.splits if_splits dest!: loadDecoded_errors)
  then show ?thesis
    by (simp add: stopInternal_def Play_def)
qed

text \<open>Loading a text file while the example track is playing.\<close>

theorem LoadFile_failure_keeps_track_witness:
  "LoadFile demoWorld ''notes.txt'' playingPlayer =
     Inr (Some (UnsupportedFileFormat ''.txt''), loadedPlayer) \<and>
   loadFailure (UnsupportedFileFormat ''.txt'') \<and>
   audioData loadedPlayer = audioData playingPlayer \<and>
   duration loadedPlayer = duration playingPlayer \<and>
   position loadedPlayer = 0 \<and>
   fst (Play loadedPlayer) = None"
proof -
  have a: "LoadFile demoWorld ''notes.txt'' playingPlayer =
      Inr (Some (UnsupportedFileFormat ''.txt''), loadedPlayer)"
    by code_simp
  have b: "loadFailure (UnsupportedFileFormat ''.txt'')"
    by (simp add: loadFailure_def)
  have c: "fst (Play playingPlayer) = None"
    by code_simp
  show ?thesis
    using a b c LoadFile_failure_keeps_track [OF a b] by simp
qed

subsection \<open>Resuming\<close>

text \<open>
  Claim C3. For a paused player with a session and a position \<open>p > 0\<close>, \<open>Resume\<close> goes
  back to playing and leaves the position at \<open>p\<close>; when the application resumes the
  player (the handler that closes the help page calls \<open>a.player.Resume()\<close>), the score,
  the streak, the hit count, the accuracy and the lyric lines with their flags are
  unchanged.
\<close>

theorem Resume_keeps_position_and_session:
  assumes "appPlayer a = Some p" and "isPaused p" and "player p \<noteq> None"
    and "0 < position p"
  shows "position (Resume p) = position p \<and> isPlaying (Resume p) \<and> \<not> isPaused (Resume p) \<and>
         appPlayer (closeHelp True a) = Some (Resume p) \<and>
         karaokeScore (closeHelp True a) = karaokeScore a \<and>
         streak (closeHelp True a) = streak a \<and>
         hitLyrics (closeHelp True a) = hitLyrics a \<and>
         accuracy (closeHelp True a) = accuracy a \<and>
         lyricLines (closeHelp True a) = lyricLines a"
  using assms by (auto simp: Resume_def closeHelp_def)

lemma helpApp_reached: "showHelp singingApp = (True, helpApp)"
  by code_simp

text \<open>On the application whose help page was opened two seconds into the song.\<close>

theorem Resume_keeps_position_and_session_witness:
  "appPlayer helpApp = Some pausedPlayer \<and> isPaused pausedPlayer \<and>
   player pausedPlayer \<noteq> None \<and> 0 < position pausedPlayer \<and>
   position pausedPlayer = 2 * Second \<and> position (Resume pausedPlayer) = 2 * Second \<and>
   isPlaying (Resume pausedPlayer) \<and> \<not> isPaused (Resume pausedPlayer) \<and>
   karaokeScore (closeHelp True helpApp) = 1234 \<and> streak (closeHelp True helpApp) = 7 \<and>
   hitLyrics (closeHelp True helpApp) = 1 \<and> lyricLines (closeHelp True helpApp) = priorLines"
proof -
  have h: "appPlayer helpApp = Some pausedPlayer" "isPaused pausedPlayer"
    "player pausedPlayer \<noteq> None" "0 < position pausedPlayer"
    by (simp_all add: helpApp_def singingApp_def pausedPlayer_def loadedPlayer_def Second_def)
  have v: "position pausedPlayer = 2 * Second" "karaokeScore helpApp = 1234" "streak helpApp = 7"
    "hitLyrics helpApp = 1" "lyricLines helpApp = priorLines"
    by (simp_all add: helpApp_def singingApp_def finishedApp_def idleApp_def pausedPlayer_def
        loadedPlayer_def)
  show ?thesis
    using h v Resume_keeps_position_and_session [OF h] by simp
qed

section \<open>Properties of the sample buffer\<close>

subsection \<open>Stores and frames\<close>

lemma highByte_logical: "highByte v = ucast (drop_bit 8 v)"
proof -
  have "(ucast (signed_drop_bit 8 v) :: byte) = ucast (drop_bit 8 v)"
    apply (rule bit_word_eqI)
    apply (auto simp: bit_simps)
    done
  then show ?thesis
    by (simp add: highByte_def)
qed

lemma specClamp_eq: "specClamp x = clampSample x"
  by (simp add: specClamp_def clampSample_def)

lemma store_length: "store xs i v = Inr ys \<Longrightarrow> length ys = length xs"
  by (auto simp: store_def split: if_splits)

lemma store_append:
  "int (length pre) + int j = i \<Longrightarrow> j < length post \<Longrightarrow>
   store (pre @ post) i v = Inr (pre @ post[j := v])"
  by (auto simp: store_def list_update_append nat_add_distrib)

lemma convertFrame_length:
  "convertFrame vol ch i s buf = Inr d \<Longrightarrow> length d = length buf"
  by (auto simp: convertFrame_def Let_def split: sum.splits if_splits dest!: store_length)

lemma convertFrame_safe:
  assumes "0 \<le> i" and "4 * i + 3 < int (length buf)"
  shows "\<exists>d. convertFrame vol ch i s buf = Inr d"
  using assms by (simp add: convertFrame_def Let_def store_def)

lemma convertFrame_mono_out_of_range:
  "int (length buf) \<le> 4 * i \<Longrightarrow> convertFrame vol ch i s buf = Inl IndexOutOfRange"
  by (simp add: convertFrame_def Let_def store_def)

lemma convertFrame_panic:
  "convertFrame vol ch i s buf = Inl e \<Longrightarrow> e = IndexOutOfRange"
  by (auto simp: convertFrame_def Let_def store_def split: sum.splits if_splits)

subsection \<open>Two channels: the buffer is the one the specification describes\<close>

lemma specBuild_Cons:
  "specBuild vol 2 (s # samples) =
     [lowByte (toInt16 (clampSample (fst s * vol) * 32767)),
      highByte (toInt16 (clampSample (fst s * vol) * 32767)),
      lowByte (toInt16 (clampSample (snd s * vol) * 32767)),
      highByte (toInt16 (clampSample (snd s * vol) * 32767))] @ specBuild vol 2 samples"
  by (simp add: specBuild_def littleEndian16_def channelSample_def specClamp_eq
      highByte_logical lowByte_def numeral_2_eq_2)

lemma convertFrame_stereo:
  assumes "int (length pre) = 4 * i"
  shows "convertFrame vol 2 i s (pre @ b0 # b1 # b2 # b3 # rest) =
           Inr (pre @ specBuild vol 2 [s] @ rest)"
proof -
  have s0: "store (pre @ b0 # b1 # b2 # b3 # rest) (i * 4) v = Inr (pre @ v # b1 # b2 # b3 # rest)" for v b0 b1 b2 b3
    using assms by (subst store_append [where j = 0]) simp_all
  have s1: "store (pre @ b0 # b1 # b2 # b3 # rest) (i * 4 + 1) v = Inr (pre @ b0 # v # b2 # b3 # rest)" for v b0 b1 b2 b3
    using assms by (subst store_append [where j = 1]) simp_all
  have s2: "store (pre @ b0 # b1 # b2 # b3 # rest) (i * 4 + 2) v = Inr (pre @ b0 # b1 # v # b3 # rest)" for v b0 b1 b2 b3
    using assms by (subst store_append [where j = 2]) simp_all
  have s3: "store (pre @ b0 # b1 # b2 # b3 # rest) (i * 4 + 3) v = Inr (pre @ b0 # b1 # b2 # v # rest)" for v b0 b1 b2 b3
    using assms by (subst store_append [where j = 3]) (simp_all add: numeral_3_eq_3)
  show ?thesis
    by (simp add: convertFrame_def Let_def s0 s1 s2 s3 specBuild_Cons [of vol s "[]"]
        specBuild_def [of vol 2 "[]"])
qed

lemma convertLoop_stereo:
  "int (length pre) = 4 * i \<Longrightarrow>
   convertLoop vol 2 i samples (pre @ replicate (4 * length samples) 0) =
     Inr (pre @ specBuild vol 2 samples)"
proof (induction samples arbitrary: pre i)
  case Nil
  then show ?case by (simp add: specBuild_def)
next
  case (Cons s samples)
  have r: "replicate (4 * length (s # samples)) (0 :: byte) =
      0 # 0 # 0 # 0 # replicate (4 * length samples) 0"
    by (simp add: numeral_eq_Suc)
  have f: "convertFrame vol 2 i s (pre @ replicate (4 * length (s # samples)) 0) =
      Inr ((pre @ specBuild vol 2 [s]) @ replicate (4 * length samples) 0)"
    unfolding r using convertFrame_stereo [OF Cons.prems] by simp
  have l: "int (length (pre @ specBuild vol 2 [s])) = 4 * (i + 1)"
    using Cons.prems by (simp add: specBuild_Cons [of vol s "[]"] specBuild_def [of vol 2 "[]"])
  have j: "specBuild vol 2 [s] @ specBuild vol 2 samples = specBuild vol 2 (s # samples)"
    by (simp add: specBuild_def)
  have "convertLoop vol 2 i (s # samples) (pre @ replicate (4 * length (s # samples)) 0) =
      (case convertFrame vol 2 i s (pre @ replicate (4 * length (s # samples)) 0) of
         Inl e \<Rightarrow> Inl e
       | Inr d \<Rightarrow> convertLoop vol 2 (i + 1) samples d)"
    by (simp only: convertLoop.simps)
  also have "\<dots> = convertLoop vol 2 (i + 1) samples
      ((pre @ specBuild vol 2 [s]) @ replicate (4 * length samples) 0)"
    by (simp only: f sum.case)
  also have "\<dots> = Inr ((pre @ specBuild vol 2 [s]) @ specBuild vol 2 samples)"
    by (rule Cons.IH [OF l])
  also have "\<dots> = Inr (pre @ specBuild vol 2 (s # samples))"
    by (simp only: append_assoc j)
  finally show ?case .
qed

text \<open>
  With two channels \<open>convertToRawPCM\<close> returns, for every list of frames and every
  volume, the buffer of \<open>specBuild\<close>: scaled, then clamped, then quantized, low byte
  first, left before right, frame after frame.
\<close>

lemma convertToRawPCM_stereo_refines:
  assumes "channels p = 2"
  shows "convertToRawPCM p samples = Inr (specBuild (volume p) 2 samples)"
proof -
  have "nat (int (length samples) * 2 * 2) = 4 * length samples"
    by simp
  then show ?thesis
    using convertLoop_stereo [of "[]" 0 "volume p" samples]
    by (simp add: convertToRawPCM_def makeBytes_def assms)
qed

text \<open>
  A sample of 1.5 at volume 0.5 is scaled to 0.75 before the clamp and kept; clamping
  first would have given 0.5.
\<close>

lemma clamp_after_scaling:
  "clampSample (3 / 2 * (1 / 2)) = 3 / 4 \<and> clampSample (3 / 2) * (1 / 2) = 1 / 2"
  by (simp add: clampSample_def)

lemma attenuated_sample_not_clamped:
  assumes "- 1 \<le> x * vol" and "x * vol \<le> 1"
  shows "clampSample (x * vol) = x * vol"
  using assms by (simp add: clampSample_def)

subsection \<open>Bounds of the stores\<close>

text \<open>With two or more channels every store is inside the buffer.\<close>

lemma convertLoop_safe:
  "0 \<le> i \<Longrightarrow> 4 * (i + int (length samples)) \<le> int (length buf) \<Longrightarrow>
   \<exists>d. convertLoop vol ch i samples buf = Inr d \<and> length d = length buf"
proof (induction samples arbitrary: i buf)
  case Nil
  then show ?case by simp
next
  case (Cons s samples)
  have "4 * i + 3 < int (length buf)"
    using Cons.prems by simp
  from convertFrame_safe [OF Cons.prems(1) this] obtain d
    where d: "convertFrame vol ch i s buf = Inr d"
    by blast
  have len: "length d = length buf"
    using d by (rule convertFrame_length)
  have "\<exists>e. convertLoop vol ch (i + 1) samples d = Inr e \<and> length e = length d"
    using Cons.prems by (intro Cons.IH) (simp_all add: len)
  then show ?case
    by (simp add: d len)
qed

lemma convertToRawPCM_two_or_more_channels:
  assumes "2 \<le> channels p"
  shows "\<exists>d. convertToRawPCM p samples = Inr d \<and>
             int (length d) = int (length samples) * 2 * channels p"
proof -
  have n: "0 \<le> int (length samples) * 2 * channels p"
    using assms by simp
  have "2 * int (length samples) \<le> channels p * int (length samples)"
    using assms by (intro mult_right_mono) simp_all
  then have "int (length samples) * 4 \<le> int (length samples) * 2 * channels p"
    by simp
  then have "4 * (0 + int (length samples)) \<le>
      int (length (replicate (nat (int (length samples) * 2 * channels p)) (0 :: byte)))"
    using n by simp
  from convertLoop_safe [OF _ this, of "volume p" "channels p"] n
  show ?thesis
    by (auto simp: convertToRawPCM_def makeBytes_def)
qed

text \<open>
  With one channel the buffer has two bytes per frame while frame \<open>i\<close> is stored at
  \<open>4 * i\<close>: as soon as there are two frames, a store falls outside the buffer.
\<close>

lemma convertLoop_mono_panics:
  "0 \<le> i \<Longrightarrow> samples \<noteq> [] \<Longrightarrow> int (length buf) \<le> 4 * (i + int (length samples) - 1) \<Longrightarrow>
   convertLoop vol ch i samples buf = Inl IndexOutOfRange"
proof (induction samples arbitrary: i buf)
  case Nil
  then show ?case by simp
next
  case (Cons s samples)
  show ?case
  proof (cases "convertFrame vol ch i s buf")
    case (Inl e)
    then show ?thesis
      using convertFrame_panic [OF Inl] by simp
  next
    case (Inr d)
    have len: "length d = length buf"
      using Inr by (rule convertFrame_length)
    have "\<not> int (length buf) \<le> 4 * i"
      using Inr convertFrame_mono_out_of_range [of buf i vol ch s] by auto
    then have ne: "samples \<noteq> []"
      using Cons.prems by auto
    have "convertLoop vol ch (i + 1) samples d = Inl IndexOutOfRange"
      using Cons.prems ne by (intro Cons.IH) (simp_all add: len)
    then show ?thesis
      by (simp add: Inr)
  qed
qed

lemma convertToRawPCM_mono_panics:
  assumes "channels p = 1" and "2 \<le> length samples"
  shows "convertToRawPCM p samples = Inl IndexOutOfRange"
proof -
  have ne: "samples \<noteq> []"
    using assms by auto
  have "int (length (replicate (nat (int (length samples) * 2)) (0 :: byte))) \<le>
      4 * (0 + int (length samples) - 1)"
    using assms by simp
  from convertLoop_mono_panics [OF _ ne this, of "volume p" 1]
  show ?thesis
    by (simp add: convertToRawPCM_def makeBytes_def assms)
qed

text \<open>
  Claim C4. The claim describes the buffer of \<open>specBuild\<close> for the channel count of the
  player. For a mono player at volume 0.5 and the two frames 1.5 and 0.25 that buffer is
  the four bytes of 24575 and 4095, low byte first, whereas \<open>convertToRawPCM\<close> stops
  with an index out of range at the second frame.
\<close>

theorem convertToRawPCM_mono_departs_from_specBuild:
  "channels monoPlayer = 1 \<and> volume monoPlayer = 1 / 2 \<and>
   convertToRawPCM monoPlayer [(3 / 2, 3 / 2), (1 / 4, 1 / 4)] = Inl IndexOutOfRange \<and>
   specBuild (1 / 2) 1 [(3 / 2, 3 / 2), (1 / 4, 1 / 4)] = [255, 95, 255, 15]"
  by code_simp

text \<open>
  Claim C5. The claim asks every store of \<open>convertToRawPCM\<close> to be inside the buffer it
  allocates, for mono input too. For the two-frame mono file the buffer has
  \<open>2 * 2 * 1 = 4\<close> bytes, the store of the second frame is at index 4, and \<open>LoadFile\<close>
  ends in the index-out-of-range panic.
\<close>

theorem LoadFile_mono_index_out_of_range:
  "fmtNumChannels monoTrack = 1 \<and> length (frames monoTrack) = 2 \<and>
   makeBytes (2 * 2 * 1) = Inr [0, 0, 0, 0] \<and>
   store [0, 0, 0, 0] (1 * 4) 255 = Inl IndexOutOfRange \<and>
   LoadFile demoWorld ''mono.wav'' NewAudioPlayer = Inl IndexOutOfRange"
  by code_simp

section \<open>Properties of the lyrics\<close>

subsection \<open>The active line\<close>

lemma findLoop_takeWhile:
  "findLoop t ls i act =
     (if takeWhile (\<lambda>l. Time l \<le> t) ls = [] then act
      else i + int (length (takeWhile (\<lambda>l. Time l \<le> t) ls)) - 1)"
  by (induction ls arbitrary: i act) auto

text \<open>
  For every timeline the index found is the length of the longest prefix of lines whose
  time is not after the position, minus one.
\<close>

lemma findCurrentLyricIndex_prefix:
  "findCurrentLyricIndex t a = int (length (takeWhile (\<lambda>l. Time l \<le> t) (lyricLines a))) - 1"
  by (simp add: findCurrentLyricIndex_def findLoop_takeWhile)

text \<open>
  \<open>FindLyricAtTime\<close> of the player package scans in the same way and returns the last
  entry of that prefix.
\<close>

lemma findLyricLoop_takeWhile:
  "findLyricLoop t es cur =
     (if takeWhile (\<lambda>e. Time e \<le> t) es = [] then cur
      else Some (last (takeWhile (\<lambda>e. Time e \<le> t) es)))"
  by (induction es arbitrary: cur) auto

lemma FindLyricAtTime_prefix:
  "FindLyricAtTime es t =
     (if takeWhile (\<lambda>e. Time e \<le> t) es = [] then None
      else Some (last (takeWhile (\<lambda>e. Time e \<le> t) es)))"
  by (simp add: FindLyricAtTime_def findLyricLoop_takeWhile)

text \<open>
  Claim C6 as stated, for every list of lines, does not hold: the scan stops at the
  first line that is later than the position. On the timeline with the times 1 s, 5 s,
  2 s and the position 3 s it returns index 0, while the last line whose time is not
  after the position is the one at index 2 (and the position does not precede the first
  line).
\<close>

theorem findCurrentLyricIndex_unordered_counterexample:
  "findCurrentLyricIndex (3 * Second) unorderedApp = 0 \<and>
   Time (lyricLines unorderedApp ! 2) \<le> 3 * Second \<and>
   \<not> 3 * Second < Time (lyricLines unorderedApp ! 0)"
  by code_simp

text \<open>
  Claim C6, amended. For every timeline whose times are in non-decreasing order and
  every position, \<open>findCurrentLyricIndex\<close> returns an index between -1 and the last
  index such that exactly the lines up to that index have a time not after the position:
  it is the index of the last such line, and it is -1 when the timeline is empty or the
  position precedes the first line.
\<close>

theorem findCurrentLyricIndex_last_active:
  assumes "sorted (map Time (lyricLines a))"
  shows "- 1 \<le> findCurrentLyricIndex t a \<and>
         findCurrentLyricIndex t a < int (length (lyricLines a)) \<and>
         (\<forall>j < length (lyricLines a).
            (Time (lyricLines a ! j) \<le> t) = (int j \<le> findCurrentLyricIndex t a)) \<and>
         (lyricLines a = [] \<or> t < Time (lyricLines a ! 0) \<longrightarrow> findCurrentLyricIndex t a = - 1)"
proof -
  let ?ls = "lyricLines a"
  let ?P = "\<lambda>l. Time l \<le> t"
  let ?n = "length (takeWhile ?P ?ls)"
  have r: "findCurrentLyricIndex t a = int ?n - 1"
    by (rule findCurrentLyricIndex_prefix)
  have le: "?n \<le> length ?ls"
    by (rule length_takeWhile_le)
  have inside: "?P (?ls ! j)" if "j < ?n" for j
  proof -
    have "takeWhile ?P ?ls ! j \<in> set (takeWhile ?P ?ls)"
      using that by simp
    then have "?P (takeWhile ?P ?ls ! j)"
      by (rule set_takeWhileD [THEN conjunct2])
    then show ?thesis
      using that by (simp add: takeWhile_nth)
  qed
  have outside: "\<not> ?P (?ls ! j)" if "?n \<le> j" and "j < length ?ls" for j
  proof -
    have n: "?n < length ?ls"
      using that by simp
    then have stop: "\<not> ?P (?ls ! ?n)"
      by (rule nth_length_takeWhile)
    have "map Time ?ls ! ?n \<le> map Time ?ls ! j"
      using assms that by (simp add: sorted_iff_nth_mono del: nth_map)
    then show ?thesis
      using stop that n by simp
  qed
  have all: "\<forall>j < length ?ls. ?P (?ls ! j) = (int j \<le> findCurrentLyricIndex t a)"
  proof (intro allI impI)
    fix j assume "j < length ?ls"
    then show "?P (?ls ! j) = (int j \<le> findCurrentLyricIndex t a)"
      using inside [of j] outside [of j] by (cases "j < ?n") (auto simp: r)
  qed
  have first: "findCurrentLyricIndex t a = - 1" if "lyricLines a = [] \<or> t < Time (?ls ! 0)"
  proof (cases "?ls = []")
    case True
    then show ?thesis by (simp add: r)
  next
    case False
    then have "t < Time (?ls ! 0)" and "0 < length ?ls"
      using that by auto
    then have "\<not> int 0 \<le> findCurrentLyricIndex t a"
      using all by auto
    then show ?thesis by (simp add: r)
  qed
  show ?thesis
    using le all first by (simp add: r)
qed

text \<open>The scenario: the lines at 0 s, 3 s and 6 s, at 4 s, at 0.5 s, at 0 and at -1 s.\<close>

theorem findCurrentLyricIndex_last_active_witness:
  "sorted (map Time (lyricLines scenarioApp)) \<and>
   findCurrentLyricIndex (4 * Second) scenarioApp = 1 \<and>
   findCurrentLyricIndex (500 * Millisecond) scenarioApp = 0 \<and>
   findCurrentLyricIndex 0 scenarioApp = 0 \<and>
   findCurrentLyricIndex (- 1 * Second) scenarioApp = - 1 \<and>
   Time (lyricLines scenarioApp ! 1) \<le> 4 * Second \<and>
   \<not> Time (lyricLines scenarioApp ! 2) \<le> 4 * Second"
proof -
  have s: "sorted (map Time (lyricLines scenarioApp))"
    by (simp add: scenarioApp_def scenarioLines_def idleApp_def mkLine_def Second_def)
  have v: "findCurrentLyricIndex (4 * Second) scenarioApp = 1"
    "findCurrentLyricIndex (500 * Millisecond) scenarioApp = 0"
    "findCurrentLyricIndex 0 scenarioApp = 0"
    "findCurrentLyricIndex (- 1 * Second) scenarioApp = - 1"
    by code_simp+
  have l: "(1 :: nat) < length (lyricLines scenarioApp)" "(2 :: nat) < length (lyricLines scenarioApp)"
    by (simp_all add: scenarioApp_def scenarioLines_def)
  show ?thesis
    using s v l findCurrentLyricIndex_last_active [OF s, of "4 * Second"] by auto
qed

subsection \<open>Validation\<close>

lemma validateLoop_None_iff:
  "(validateLoop k prev es = None) = sorted (prev # map Time es)"
proof (induction es arbitrary: k prev)
  case Nil
  then show ?case by simp
next
  case (Cons e es)
  show ?case
  proof (cases "Time e < prev")
    case True
    then show ?thesis by auto
  next
    case False
    have "(\<forall>x\<in>set es. prev \<le> Time x) \<or> \<not> sorted (Time e # map Time es)"
      using False by fastforce
    then show ?thesis
      using False Cons.IH [of "k + 1" "Time e"] by auto
  qed
qed

lemma validateLoop_Some:
  "validateLoop k prev es = Some err \<Longrightarrow>
   \<exists>j < length es. err = NotInChronologicalOrder (k + j) \<and>
      Time (es ! j) < (prev # map Time es) ! j"
proof (induction es arbitrary: k prev)
  case Nil
  then show ?case by simp
next
  case (Cons e es)
  show ?case
  proof (cases "Time e < prev")
    case True
    with Cons.prems show ?thesis by auto
  next
    case False
    with Cons.prems have "validateLoop (k + 1) (Time e) es = Some err"
      by simp
    from Cons.IH [OF this] obtain j where j: "j < length es"
      "err = NotInChronologicalOrder (k + 1 + j)"
      "Time (es ! j) < (Time e # map Time es) ! j"
      by blast
    then show ?thesis
      by (intro exI [of _ "Suc j"]) simp
  qed
qed

text \<open>
  Claim C9 as stated does not hold: the empty list has its times in non-decreasing
  order, and \<open>ValidateLyrics\<close> rejects it.
\<close>

theorem ValidateLyrics_empty_counterexample:
  "sorted (map Time ([] :: LyricEntry list)) \<and>
   ValidateLyrics [] = Some NoLyricsFound"
  by (simp add: ValidateLyrics_def)

text \<open>
  Claim C9, amended. \<open>ValidateLyrics\<close> rejects the empty list with the error that no
  lyrics were found. On a list that is not empty it succeeds when no entry is earlier than
  its immediate predecessor, and when some entry is, it returns the
  not-in-chronological-order error, carrying the position of an entry that is earlier
  than its predecessor.
\<close>

theorem ValidateLyrics_chronological:
  "ValidateLyrics [] = Some NoLyricsFound \<and>
   (lyrics \<noteq> [] \<longrightarrow>
      ((\<forall>i. 0 < i \<and> i < length lyrics \<longrightarrow> Time (lyrics ! (i - 1)) \<le> Time (lyrics ! i)) \<longrightarrow>
         ValidateLyrics lyrics = None) \<and>
      ((\<exists>i. 0 < i \<and> i < length lyrics \<and> Time (lyrics ! i) < Time (lyrics ! (i - 1))) \<longrightarrow>
         (\<exists>i. ValidateLyrics lyrics = Some (NotInChronologicalOrder i) \<and>
              0 < i \<and> i < length lyrics \<and> Time (lyrics ! i) < Time (lyrics ! (i - 1)))))"
proof (cases lyrics)
  case Nil
  then show ?thesis by (simp add: ValidateLyrics_def)
next
  case (Cons e es)
  have v: "ValidateLyrics lyrics = validateLoop 1 (Time e) es"
    by (simp add: ValidateLyrics_def Cons)
  have m: "map Time lyrics = Time e # map Time es"
    by (simp add: Cons)
  have adj: "sorted (map Time lyrics) =
      (\<forall>i. 0 < i \<and> i < length lyrics \<longrightarrow> Time (lyrics ! (i - 1)) \<le> Time (lyrics ! i))"
  proof
    assume "sorted (map Time lyrics)"
    then show "\<forall>i. 0 < i \<and> i < length lyrics \<longrightarrow> Time (lyrics ! (i - 1)) \<le> Time (lyrics ! i)"
      by (auto simp: sorted_iff_nth_mono dest!: spec [of _ "_ - 1"])
  next
    assume a: "\<forall>i. 0 < i \<and> i < length lyrics \<longrightarrow> Time (lyrics ! (i - 1)) \<le> Time (lyrics ! i)"
    have "map Time lyrics ! i \<le> map Time lyrics ! Suc i" if "Suc i < length (map Time lyrics)" for i
      using that a [rule_format, of "Suc i"] by simp
    then show "sorted (map Time lyrics)"
      by (simp only: sorted_iff_nth_Suc) blast
  qed
  have ok: "ValidateLyrics lyrics = None"
    if "\<forall>i. 0 < i \<and> i < length lyrics \<longrightarrow> Time (lyrics ! (i - 1)) \<le> Time (lyrics ! i)"
    using that adj validateLoop_None_iff [of 1 "Time e" es] by (simp add: v m)
  have bad: "\<exists>i. ValidateLyrics lyrics = Some (NotInChronologicalOrder i) \<and>
              0 < i \<and> i < length lyrics \<and> Time (lyrics ! i) < Time (lyrics ! (i - 1))"
    if "\<exists>i. 0 < i \<and> i < length lyrics \<and> Time (lyrics ! i) < Time (lyrics ! (i - 1))"
  proof -
    have "\<not> sorted (map Time lyrics)"
      using that adj by (auto simp: not_le)
    then have "validateLoop 1 (Time e) es \<noteq> None"
      using validateLoop_None_iff [of 1 "Time e" es] by (simp add: m)
    then obtain err where err: "validateLoop 1 (Time e) es = Some err"
      by blast
    from validateLoop_Some [OF this] obtain j where j: "j < length es"
      "err = NotInChronologicalOrder (1 + j)" "Time (es ! j) < (Time e # map Time es) ! j"
      by blast
    have "Time (lyrics ! (1 + j)) < Time (lyrics ! j)"
      using j by (cases j) (simp_all add: Cons)
    then show ?thesis
      using j err by (intro exI [of _ "1 + j"]) (simp add: ValidateLyrics_def Cons)
  qed
  show ?thesis
    using ok bad Cons by (simp add: ValidateLyrics_def)
qed

text \<open>On two entries in order and on two entries out of order.\<close>

theorem ValidateLyrics_chronological_witness:
  "orderedEntries \<noteq> [] \<and> ValidateLyrics orderedEntries = None \<and>
   unorderedEntries \<noteq> [] \<and> Time (unorderedEntries ! 1) < Time (unorderedEntries ! 0) \<and>
   ValidateLyrics unorderedEntries = Some (NotInChronologicalOrder 1)"
proof -
  have o: "orderedEntries \<noteq> []"
    by (simp add: orderedEntries_def)
  have oi: "\<forall>i. 0 < i \<and> i < length orderedEntries \<longrightarrow>
      Time (orderedEntries ! (i - 1)) \<le> Time (orderedEntries ! i)"
    by (auto simp: orderedEntries_def Second_def less_Suc_eq numeral_2_eq_2)
  have u: "unorderedEntries \<noteq> []"
    by (simp add: unorderedEntries_def)
  have ui: "Time (unorderedEntries ! 1) < Time (unorderedEntries ! 0)"
    by (simp add: unorderedEntries_def Second_def)
  have ue: "\<exists>i. 0 < i \<and> i < length unorderedEntries \<and>
      Time (unorderedEntries ! i) < Time (unorderedEntries ! (i - 1))"
    using ui by (intro exI [of _ 1]) (simp add: unorderedEntries_def)
  have v: "ValidateLyrics unorderedEntries = Some (NotInChronologicalOrder 1)"
    by code_simp
  have "ValidateLyrics orderedEntries = None"
    using ValidateLyrics_chronological [of orderedEntries] o oi by blast
  moreover have "\<exists>i. ValidateLyrics unorderedEntries = Some (NotInChronologicalOrder i)"
    using ValidateLyrics_chronological [of unorderedEntries] u ue by blast
  ultimately show ?thesis
    using o u ui v by simp
qed

section \<open>Properties of the scoring\<close>

subsection \<open>The reset at the start of a playback\<close>

lemma resetKaraoke_clears:
  "karaokeScore (resetKaraoke a) = 0 \<and> streak (resetKaraoke a) = 0 \<and>
   accuracy (resetKaraoke a) = 0 \<and> hitLyrics (resetKaraoke a) = 0 \<and>
   (\<forall>l \<in> set (lyricLines (resetKaraoke a)). \<not> IsHit l \<and> \<not> IsActive l)"
  by (simp add: resetKaraoke_def)

lemma loadLyricsFromFile_frame:
  "karaokeScore (loadLyricsFromFile lf f a) = karaokeScore a \<and>
   streak (loadLyricsFromFile lf f a) = streak a \<and>
   accuracy (loadLyricsFromFile lf f a) = accuracy a \<and>
   hitLyrics (loadLyricsFromFile lf f a) = hitLyrics a \<and>
   appIsPaused (loadLyricsFromFile lf f a) = appIsPaused a"
  by (simp add: loadLyricsFromFile_def loadDemoLyrics_def Let_def split: option.splits)

lemma play_karaoke_fields:
  assumes "play w lf a = Inr a'"
    and "0 \<le> currentSong a" and "currentSong a < int (length (songs a))"
  shows "\<exists>a2. a2 = (let song = songs a ! nat (currentSong a);
             a1 = (if LyricsPath song \<noteq> []
                   then loadLyricsFromFile lf (LyricsPath song) a
                   else a\<lparr> lyricLines := [mkLine (0 * Second) ''No lyrics available'' 0] \<rparr>)
          in (if \<not> appIsPaused a1 then resetKaraoke a1 else a1)) \<and>
     karaokeScore a' = karaokeScore a2 \<and> streak a' = streak a2 \<and>
     accuracy a' = accuracy a2 \<and> hitLyrics a' = hitLyrics a2 \<and>
     totalLyrics a' = totalLyrics a2 \<and> lyricLines a' = lyricLines a2"
  using assms
  by (auto simp: play_def Let_def split: option.splits sum.splits prod.splits if_splits)

lemma play_panics_in_LoadFile:
  assumes "play w lf a = Inl crash"
  shows "\<exists>p. appPlayer a = Some p \<and>
             LoadFile w (Path (songs a ! nat (currentSong a))) p = Inl crash"
proof -
  have seek: "SeekTo t (SetVolume v p1) \<noteq> Inl crash"
    if "LoadFile w f p = Inr (None, p1)" for t v p1 f p
  proof -
    have "player p1 = None"
      using that
      by (auto simp: LoadFile_def loadDecoded_def initializeOto_def stopInternal_def Let_def
          split: audioFile.splits option.splits sum.splits if_splits prod.splits)
    then show ?thesis
      by (simp add: SeekTo_def SetVolume_def)
  qed
  have pl: "appPlayer (loadLyricsFromFile lf f a) = appPlayer a" for f
    by (simp add: loadLyricsFromFile_def loadDemoLyrics_def Let_def split: option.splits)
  show ?thesis
    using assms seek
    by (auto simp: play_def Let_def pl resetKaraoke_def
        split: option.splits sum.splits prod.splits if_splits)
qed

lemma pausedApp_reached: "pause singingApp = pausedApp"
  by code_simp

lemma freshApp_reached: "play demoWorld demoLyricFiles finishedApp = Inr freshApp"
  by code_simp

text \<open>
  What \<open>play\<close> does to the session, for every prior state and every valid current song.
  Called while the application is not paused it returns with score, streak, accuracy and
  hit count at 0 and with the hit and active flags of every line cleared; \<open>play\<close> never
  evaluates a hit, and the tracker that does is started after the reset. Called while the
  application is paused it skips the reset block: score, streak, accuracy and hit count
  are the ones before the call. The only way for \<open>play\<close> not to return is a panic
  inside \<open>LoadFile\<close>.
\<close>

theorem play_resets_session_unless_paused:
  assumes "0 \<le> currentSong a" and "currentSong a < int (length (songs a))"
  shows "case play w lf a of
           Inl crash \<Rightarrow>
             (\<exists>p. appPlayer a = Some p \<and>
                  LoadFile w (Path (songs a ! nat (currentSong a))) p = Inl crash)
         | Inr a' \<Rightarrow>
             (\<not> appIsPaused a \<longrightarrow>
                karaokeScore a' = 0 \<and> streak a' = 0 \<and> accuracy a' = 0 \<and> hitLyrics a' = 0 \<and>
                (\<forall>l \<in> set (lyricLines a'). \<not> IsHit l \<and> \<not> IsActive l)) \<and>
             (appIsPaused a \<longrightarrow>
                karaokeScore a' = karaokeScore a \<and> streak a' = streak a \<and>
                accuracy a' = accuracy a \<and> hitLyrics a' = hitLyrics a)"
proof (cases "play w lf a")
  case (Inl crash)
  then show ?thesis
    using play_panics_in_LoadFile [of w lf a crash] by simp
next
  case (Inr a')
  from play_karaoke_fields [OF Inr assms] obtain a2 where
    a2: "a2 = (let song = songs a ! nat (currentSong a);
             a1 = (if LyricsPath song \<noteq> []
                   then loadLyricsFromFile lf (LyricsPath song) a
                   else a\<lparr> lyricLines := [mkLine (0 * Second) ''No lyrics available'' 0] \<rparr>)
          in (if \<not> appIsPaused a1 then resetKaraoke a1 else a1))"
    and eq: "karaokeScore a' = karaokeScore a2" "streak a' = streak a2"
      "accuracy a' = accuracy a2" "hitLyrics a' = hitLyrics a2" "lyricLines a' = lyricLines a2"
    by blast
  have fresh: "karaokeScore a2 = 0 \<and> streak a2 = 0 \<and> accuracy a2 = 0 \<and> hitLyrics a2 = 0 \<and>
      (\<forall>l \<in> set (lyricLines a2). \<not> IsHit l \<and> \<not> IsActive l)" if "\<not> appIsPaused a"
    using that resetKaraoke_clears
    by (simp add: a2 Let_def loadLyricsFromFile_frame)
  have resume: "karaokeScore a2 = karaokeScore a \<and> streak a2 = streak a \<and>
      accuracy a2 = accuracy a \<and> hitLyrics a2 = hitLyrics a" if "appIsPaused a"
    using that by (simp add: a2 Let_def loadLyricsFromFile_frame)
  show ?thesis
    using fresh resume by (simp add: Inr eq)
qed

text \<open>
  On the application whose last playback ended with a streak of 7, and on the same
  application paused.
\<close>

theorem play_resets_session_unless_paused_witness:
  "(0 \<le> currentSong finishedApp \<and> currentSong finishedApp < int (length (songs finishedApp))) \<and>
   \<not> appIsPaused finishedApp \<and> streak finishedApp = 7 \<and>
   (case play demoWorld demoLyricFiles finishedApp of
      Inl crash \<Rightarrow> False
    | Inr a' \<Rightarrow> karaokeScore a' = 0 \<and> streak a' = 0 \<and> accuracy a' = 0 \<and> hitLyrics a' = 0 \<and>
        (\<forall>l \<in> set (lyricLines a'). \<not> IsHit l \<and> \<not> IsActive l)) \<and>
   (0 \<le> currentSong pausedApp \<and> currentSong pausedApp < int (length (songs pausedApp))) \<and>
   appIsPaused pausedApp \<and> streak pausedApp = 7 \<and>
   (case play demoWorld demoLyricFiles pausedApp of
      Inl crash \<Rightarrow> False
    | Inr a' \<Rightarrow> karaokeScore a' = 1234 \<and> streak a' = 7 \<and> accuracy a' = 100 / 3 \<and>
        hitLyrics a' = 1)"
proof -
  have f: "0 \<le> currentSong finishedApp" "currentSong finishedApp < int (length (songs finishedApp))"
    by (simp_all add: finishedApp_def idleApp_def)
  have p: "0 \<le> currentSong pausedApp" "currentSong pausedApp < int (length (songs pausedApp))"
    by (simp_all add: pausedApp_def finishedApp_def idleApp_def)
  have fv: "\<not> appIsPaused finishedApp" "streak finishedApp = 7"
    by (simp_all add: finishedApp_def idleApp_def)
  have pv: "appIsPaused pausedApp" "streak pausedApp = 7" "karaokeScore pausedApp = 1234"
    "accuracy pausedApp = 100 / 3" "hitLyrics pausedApp = 1"
    by (simp_all add: pausedApp_def finishedApp_def idleApp_def)
  have rf: "case play demoWorld demoLyricFiles finishedApp of Inl crash \<Rightarrow> False | Inr a' \<Rightarrow> True"
    by code_simp
  have rp: "case play demoWorld demoLyricFiles pausedApp of Inl crash \<Rightarrow> False | Inr a' \<Rightarrow> True"
    by code_simp
  show ?thesis
    using f p fv pv rf rp
      play_resets_session_unless_paused [OF f, of demoWorld demoLyricFiles]
      play_resets_session_unless_paused [OF p, of demoWorld demoLyricFiles]
    by (auto split: sum.splits)
qed

text \<open>
  Claim C8. The claim asks a resume from pause to reset nothing of the session, the hit
  and active flags of the lines included, and the comment on the reset block of \<open>play\<close>
  says the same (reset only for new playback, not resume). But \<open>play\<close> reloads the
  lyric lines before it tests \<open>isPaused\<close>. On the paused example application, where
  the first line has been hit and two lines are active, \<open>play\<close> keeps the score 1234,
  the streak 7 and the hit count 1 and returns with every flag cleared; the next
  scoring round at position 0 then credits the first line a second time.
\<close>

theorem play_resume_clears_line_flags:
  "appIsPaused pausedApp \<and> karaokeScore pausedApp = 1234 \<and> streak pausedApp = 7 \<and>
   hitLyrics pausedApp = 1 \<and>
   map IsHit (lyricLines pausedApp) = [True, False, False] \<and>
   map IsActive (lyricLines pausedApp) = [True, True, False] \<and>
   (case play demoWorld demoLyricFiles pausedApp of
      Inl crash \<Rightarrow> False
    | Inr a' \<Rightarrow>
        karaokeScore a' = 1234 \<and> streak a' = 7 \<and> hitLyrics a' = 1 \<and>
        map IsHit (lyricLines a') = [False, False, False] \<and>
        map IsActive (lyricLines a') = [False, False, False] \<and>
        hitLyrics (scoringTick (0, 0) a') = 2 \<and> streak (scoringTick (0, 0) a') = 8 \<and>
        map IsHit (lyricLines (scoringTick (0, 0) a')) = [True, False, False])"
  by code_simp

text \<open>
  What the play/pause key does on a paused application: \<open>togglePlayPause\<close> runs
  \<open>play\<close>, whose \<open>LoadFile\<close> ends the session, so the \<open>SeekTo\<close> that follows is refused
  and \<open>Play\<close> starts the track at position 0. The counters of the session are kept and
  the lines are the freshly loaded ones.
\<close>

lemma resume_through_play_restarts:
  "appIsPaused pausedApp \<and> appPosition pausedApp = 2 * Second \<and>
   IsHit (lyricLines pausedApp ! 0) \<and>
   (case togglePlayPause demoWorld demoLyricFiles pausedApp of
      Inl crash \<Rightarrow> False
    | Inr a' \<Rightarrow>
        appIsPlaying a' \<and> \<not> appIsPaused a' \<and>
        map_option position (appPlayer a') = Some 0 \<and>
        karaokeScore a' = 1234 \<and> streak a' = 7 \<and> hitLyrics a' = 1 \<and>
        lyricLines a' = scenarioLines)"
  by code_simp

subsection \<open>The streak\<close>

lemma filter_IsHit_update:
  assumes "i < length ls"
  shows "int (length (filter IsHit (ls[i := l']))) =
           int (length (filter IsHit ls)) - (if IsHit (ls ! i) then 1 else 0) +
           (if IsHit l' then 1 else 0)"
proof -
  have a: "ls[i := l'] = take i ls @ l' # drop (Suc i) ls"
    using assms by (simp add: upd_conv_take_nth_drop)
  have b: "ls = take i ls @ ls ! i # drop (Suc i) ls"
    using assms by (simp add: id_take_nth_drop [symmetric])
  have "length (filter IsHit ls) =
      length (filter IsHit (take i ls)) + (if IsHit (ls ! i) then 1 else 0) +
      length (filter IsHit (drop (Suc i) ls))"
    by (subst b) simp
  then show ?thesis
    by (simp add: a)
qed

lemma filter_IsHit_update_same:
  assumes "i < length ls" and "IsHit l' = IsHit (ls ! i)"
  shows "length (filter IsHit (ls[i := l'])) = length (filter IsHit ls)"
  using filter_IsHit_update [OF assms(1), of l'] assms(2) by simp

lemma hitLyric_streak:
  "streak (hitLyric i a) =
     (if 0 \<le> i \<and> i < int (length (lyricLines a)) \<and> \<not> IsHit (lyricLines a ! nat i)
      then streak a + 1 else streak a)"
  by (simp add: hitLyric_def Let_def)

lemma hitLyric_hitLyrics:
  "hitLyrics (hitLyric i a) =
     (if 0 \<le> i \<and> i < int (length (lyricLines a)) \<and> \<not> IsHit (lyricLines a ! nat i)
      then hitLyrics a + 1 else hitLyrics a)"
  by (simp add: hitLyric_def Let_def)

lemma hitLyric_lyricLines:
  "lyricLines (hitLyric i a) =
     (if 0 \<le> i \<and> i < int (length (lyricLines a)) \<and> \<not> IsHit (lyricLines a ! nat i)
      then (lyricLines a)[nat i := (lyricLines a ! nat i)\<lparr> IsHit := True \<rparr>]
      else lyricLines a)"
  by (simp add: hitLyric_def Let_def)

lemma calculateAccuracy_frame:
  "streak (snd (calculateAccuracy a)) = streak a \<and>
   hitLyrics (snd (calculateAccuracy a)) = hitLyrics a \<and>
   lyricLines (snd (calculateAccuracy a)) = lyricLines a"
  by (simp add: calculateAccuracy_def Let_def)

lemma updateKaraokeScoring_streak:
  "streak (updateKaraokeScoring draw a) = (if creditsLine draw a then streak a + 1 else streak a)"
  by (auto simp: updateKaraokeScoring_def creditsLine_def Let_def split_def
      calculateAccuracy_frame hitLyric_streak)

lemma updateKaraokeScoring_hitLyrics:
  "hitLyrics (updateKaraokeScoring draw a) =
     (if creditsLine draw a then hitLyrics a + 1 else hitLyrics a)"
  by (auto simp: updateKaraokeScoring_def creditsLine_def Let_def split_def
      calculateAccuracy_frame hitLyric_hitLyrics)

lemma updateKaraokeScoring_hit_flags:
  "int (length (filter IsHit (lyricLines (updateKaraokeScoring draw a)))) =
     (if creditsLine draw a then int (length (filter IsHit (lyricLines a))) + 1
      else int (length (filter IsHit (lyricLines a))))"
  by (auto simp: updateKaraokeScoring_def creditsLine_def Let_def split_def
      calculateAccuracy_frame hitLyric_lyricLines filter_IsHit_update filter_IsHit_update_same
      simp del: One_nat_def)

lemma scoringTick_step:
  "streak (scoringTick tk a) - streak a = hitLyrics (scoringTick tk a) - hitLyrics a \<and>
   streak (scoringTick tk a) - streak a =
     int (length (filter IsHit (lyricLines (scoringTick tk a)))) -
     int (length (filter IsHit (lyricLines a))) \<and>
   (streak (scoringTick tk a) = streak a \<or> streak (scoringTick tk a) = streak a + 1)"
proof -
  define b where "b = updateVisualizer (a\<lparr> appPosition := fst tk \<rparr>)"
  have b: "streak b = streak a" "hitLyrics b = hitLyrics a" "lyricLines b = lyricLines a"
    by (simp_all add: b_def updateVisualizer_def generateVisualizerData_def Let_def)
  have t: "scoringTick tk a = (if appIsPlaying b then updateKaraokeScoring (snd tk) b else b)"
    by (simp add: scoringTick_def updateScore_def b_def)
  show ?thesis
  proof (cases "appIsPlaying b")
    case False
    then show ?thesis by (simp add: t b)
  next
    case True
    then have u: "scoringTick tk a = updateKaraokeScoring (snd tk) b"
      by (simp add: t)
    show ?thesis
      unfolding u
      using updateKaraokeScoring_streak [of "snd tk" b]
        updateKaraokeScoring_hitLyrics [of "snd tk" b]
        updateKaraokeScoring_hit_flags [of "snd tk" b]
      by (cases "creditsLine (snd tk) b") (simp_all add: b)
  qed
qed

text \<open>
  Claim C10. Across any sequence of scoring rounds of the tracker, whatever the
  positions and the random draws, the streak never decreases; it grows by exactly the
  number of hits of those rounds (counted by \<open>hitLyrics\<close> and by the lines flagged as
  hit alike), so a round that misses its line leaves the streak as it is, and a single
  round raises it by 1 or not at all. The streak is a Go \<open>int\<close>; the model counts in
  the integers.
\<close>

theorem streak_never_decreases:
  "streak a \<le> streak (scoringTicks ticks a) \<and>
   streak (scoringTicks ticks a) - streak a =
     hitLyrics (scoringTicks ticks a) - hitLyrics a \<and>
   streak (scoringTicks ticks a) - streak a =
     int (length (filter IsHit (lyricLines (scoringTicks ticks a)))) -
     int (length (filter IsHit (lyricLines a))) \<and>
   (streak (scoringTick tk a) = streak a \<or> streak (scoringTick tk a) = streak a + 1)"
proof -
  have run: "streak a \<le> streak (scoringTicks ticks a) \<and>
      streak (scoringTicks ticks a) - streak a =
        hitLyrics (scoringTicks ticks a) - hitLyrics a \<and>
      streak (scoringTicks ticks a) - streak a =
        int (length (filter IsHit (lyricLines (scoringTicks ticks a)))) -
        int (length (filter IsHit (lyricLines a)))"
  proof (induction ticks arbitrary: a)
    case Nil
    show ?case by simp
  next
    case (Cons t ticks)
    have one: "streak a \<le> streak (scoringTick t a)"
      using scoringTick_step [of t a] by auto
    show ?case
      using Cons.IH [of "scoringTick t a"] scoringTick_step [of t a] one by simp
  qed
  show ?thesis
    using run scoringTick_step [of tk a] by simp
qed

text \<open>A hit, a miss and a hit after a fresh \<open>play\<close>.\<close>

theorem streak_never_decreases_witness:
  "streak freshApp = 0 \<and>
   streak (scoringTicks (take 1 demoTicks) freshApp) = 1 \<and>
   streak (scoringTicks (take 2 demoTicks) freshApp) = 1 \<and>
   hitLyrics (scoringTicks (take 2 demoTicks) freshApp) = 1 \<and>
   streak (scoringTicks demoTicks freshApp) = 2 \<and>
   hitLyrics (scoringTicks demoTicks freshApp) = 2 \<and>
   streak freshApp \<le> streak (scoringTicks demoTicks freshApp)"
proof -
  have v: "streak freshApp = 0"
    "streak (scoringTicks (take 1 demoTicks) freshApp) = 1"
    "streak (scoringTicks (take 2 demoTicks) freshApp) = 1"
    "hitLyrics (scoringTicks (take 2 demoTicks) freshApp) = 1"
    "streak (scoringTicks demoTicks freshApp) = 2"
    "hitLyrics (scoringTicks demoTicks freshApp) = 2"
    by code_simp+
  show ?thesis
    using v streak_never_decreases [of freshApp demoTicks "hd demoTicks"] by simp
qed

end
